theory Spec2Isabelle
  imports Main "HOL-Library.Word"
begin

section \<open>Errors\<close>

text \<open>
  The library reports failures by throwing.  The exceptions that can leave the
  functions modelled here are \<open>std::bad_alloc\<close> (from \<open>new[]\<close>) and
  \<open>std::system_error{errno, std::system_category()}\<close> (from the system call
  wrappers).  \<open>Undefined\<close> marks executions the C++ standard leaves undefined
  (dereferencing a null or dangling pointer, an access outside the allocation),
  and \<open>ConstViolation\<close> an assignment through a pointer to \<open>const\<close>, which the
  compiler rejects.
\<close>

datatype error = BadAlloc | SystemError int | Undefined | ConstViolation

section \<open>The dispatch primitive (utility.hpp)\<close>

text \<open>
  The platform call \<open>::ioctl(fd, req, arg)\<close> is a parameter \<open>k\<close>: from the
  descriptor, the request code, the argument and the kernel's state it gives the
  \<open>int\<close> result, the value \<open>errno\<close> holds afterwards, and the kernel's next
  state.  An \<open>int\<close> is a 32-bit word read with \<open>sint\<close>; the conversion to the
  \<open>unsigned int\<close> return type keeps the bits.
\<close>

type_synonym ('a, 'k) sys_ioctl =
  "32 word \<Rightarrow> 64 word \<Rightarrow> 'a \<Rightarrow> 'k \<Rightarrow> (32 word \<times> int) \<times> 'k"

definition ioctl ::
  "('a, 'k) sys_ioctl \<Rightarrow> 32 word \<Rightarrow> 64 word \<Rightarrow> 'a \<Rightarrow> 'k \<Rightarrow> (error + 32 word) \<times> 'k"
where
  "ioctl k fd req arg s =
     (case k fd req arg s of
        ((ret, errno), s') \<Rightarrow>
          if sint ret < 0 then (Inl (SystemError errno), s') else (Inr ret, s'))"

section \<open>The free store and flexible-array-member buffers (types.hpp, types.cpp)\<close>

text \<open>
  \<open>FamStruct<Struct, Buffer>\<close> obtains \<open>new Buffer[n]()\<close> and reads the allocation
  as a \<open>Struct\<close>: a header whose first field is a 32-bit count, followed by the
  trailing array.  A block of the free store records the size of the allocation in
  bytes, the header's count field, the header's second 32-bit field (\<open>pad\<close>,
  \<open>padding\<close> or \<open>flags\<close>; \<open>kvm_msr_list\<close> has none) and the elements that fit into
  the allocation behind the header.  The store is a list of blocks indexed by
  address, \<open>None\<close> for a block that has been deleted, and \<open>avail\<close> is the number of
  bytes the allocator can still hand out.
\<close>

record 'e fam_block =
  nbytes :: nat
  hdr_count :: "32 word"
  hdr_pad :: "32 word"
  trailing :: "'e list"

record 'e heap =
  blocks :: "'e fam_block option list"
  avail :: nat

text \<open>The only data member of every FAM class is the owning pointer \<open>ptr_\<close> (\<open>ptr\<close> here).\<close>

record FamStruct =
  ptr :: "nat option"

definition lookup :: "'e heap \<Rightarrow> nat \<Rightarrow> 'e fam_block option" where
  "lookup h a = (if a < length (blocks h) then blocks h ! a else None)"

text \<open>\<open>ptr_->\<close>: a null pointer or a deleted block cannot be dereferenced.\<close>

definition deref :: "FamStruct \<Rightarrow> 'e heap \<Rightarrow> error + (nat \<times> 'e fam_block)" where
  "deref l h =
     (case ptr l of
        None \<Rightarrow> Inl Undefined
      | Some a \<Rightarrow> (case lookup h a of None \<Rightarrow> Inl Undefined | Some b \<Rightarrow> Inr (a, b)))"

text \<open>
  \<open>FamStruct(const size_t n)\<close>: \<open>new Buffer[n]()\<close> with \<open>ub = sizeof(Buffer)\<close>,
  value-initialised, so every byte is zero; \<open>hb\<close> is the size of the header,
  \<open>eb\<close> the size of an element and \<open>z\<close> the all-zero element.
\<close>

definition FamStruct_new ::
  "nat \<Rightarrow> nat \<Rightarrow> nat \<Rightarrow> 'e \<Rightarrow> 64 word \<Rightarrow> 'e heap \<Rightarrow> error + (FamStruct \<times> 'e heap)"
where
  "FamStruct_new ub hb eb z n h =
     (let bytes = ub * unat n in
      if avail h < bytes then Inl BadAlloc
      else Inr (\<lparr>ptr = Some (length (blocks h))\<rparr>,
                h\<lparr>blocks := blocks h @
                     [Some \<lparr>nbytes = bytes, hdr_count = 0, hdr_pad = 0,
                            trailing = replicate ((bytes - hb) div eb) z\<rparr>],
                   avail := avail h - bytes\<rparr>))"

text \<open>\<open>auto get() -> Struct*\<close>.\<close>

definition get :: "FamStruct \<Rightarrow> nat option" where
  "get l = ptr l"

text \<open>The deleter run by the \<open>unique_ptr\<close> when its owner is destroyed.\<close>

definition fam_destroy :: "FamStruct \<Rightarrow> 'e heap \<Rightarrow> error + 'e heap" where
  "fam_destroy l h =
     (case ptr l of
        None \<Rightarrow> Inr h
      | Some a \<Rightarrow>
          (case lookup h a of
             None \<Rightarrow> Inl Undefined
           | Some b \<Rightarrow> Inr (h\<lparr>blocks := (blocks h)[a := None], avail := avail h + nbytes b\<rparr>)))"

text \<open>\<open>ptr_->nmsrs = n\<close> (\<open>nent\<close>, \<open>nr\<close>): a store into the header.\<close>

definition store_count :: "nat \<Rightarrow> 32 word \<Rightarrow> FamStruct \<Rightarrow> 'e heap \<Rightarrow> error + 'e heap" where
  "store_count hb c l h =
     (case deref l h of
        Inl e \<Rightarrow> Inl e
      | Inr (a, b) \<Rightarrow>
          if nbytes b < hb then Inl Undefined
          else Inr (h\<lparr>blocks := (blocks h)[a := Some (b\<lparr>hdr_count := c\<rparr>)]\<rparr>))"

text \<open>\<open>ptr_->flags = 0\<close>: a store into the header's second field.\<close>

definition store_pad :: "nat \<Rightarrow> 32 word \<Rightarrow> FamStruct \<Rightarrow> 'e heap \<Rightarrow> error + 'e heap" where
  "store_pad hb c l h =
     (case deref l h of
        Inl e \<Rightarrow> Inl e
      | Inr (a, b) \<Rightarrow>
          if nbytes b < hb then Inl Undefined
          else Inr (h\<lparr>blocks := (blocks h)[a := Some (b\<lparr>hdr_pad := c\<rparr>)]\<rparr>))"

text \<open>
  Running a member function on the object and the store a constructor returned;
  an exception of the constructor propagates.
\<close>

definition after :: "error + ('a \<times> 'h) \<Rightarrow> ('a \<Rightarrow> 'h \<Rightarrow> error + 'r) \<Rightarrow> error + 'r" where
  "after r f = (case r of Inl e \<Rightarrow> Inl e | Inr (l, h) \<Rightarrow> f l h)"

text \<open>The size in bytes of the allocation behind an object.\<close>

definition alloc_bytes :: "FamStruct \<Rightarrow> 'e heap \<Rightarrow> error + nat" where
  "alloc_bytes l h = (case deref l h of Inl e \<Rightarrow> Inl e | Inr (a, b) \<Rightarrow> Inr (nbytes b))"

subsection \<open>Pointers to elements\<close>

text \<open>
  An iterator of a FAM class is a plain pointer into the trailing array:
  \<open>iterator\<close> is \<open>value_type*\<close> and \<open>const_iterator\<close> is \<open>value_type const*\<close>.
\<close>

datatype elem_ptr = ElemPtr (is_const: bool) (block_of: nat) (index_of: nat)

definition ptr_add :: "elem_ptr \<Rightarrow> nat \<Rightarrow> elem_ptr" where
  "ptr_add p i = ElemPtr (is_const p) (block_of p) (index_of p + i)"

definition ptr_load :: "elem_ptr \<Rightarrow> 'e heap \<Rightarrow> error + 'e" where
  "ptr_load p h =
     (case lookup h (block_of p) of
        None \<Rightarrow> Inl Undefined
      | Some b \<Rightarrow>
          if index_of p < length (trailing b) then Inr (trailing b ! index_of p)
          else Inl Undefined)"

definition ptr_store :: "elem_ptr \<Rightarrow> 'e \<Rightarrow> 'e heap \<Rightarrow> error + 'e heap" where
  "ptr_store p v h =
     (if is_const p then Inl ConstViolation
      else case lookup h (block_of p) of
        None \<Rightarrow> Inl Undefined
      | Some b \<Rightarrow>
          if index_of p < length (trailing b)
          then Inr (h\<lparr>blocks := (blocks h)[block_of p :=
                         Some (b\<lparr>trailing := (trailing b)[index_of p := v]\<rparr>)]\<rparr>)
          else Inl Undefined)"

text \<open>\<open>for (it = first; it != last; ++it) yield *it\<close>, over a range of one block.\<close>

fun load_n :: "nat \<Rightarrow> elem_ptr \<Rightarrow> 'e heap \<Rightarrow> error + 'e list" where
  "load_n 0 p h = Inr []"
| "load_n (Suc n) p h =
     (case ptr_load p h of
        Inl e \<Rightarrow> Inl e
      | Inr x \<Rightarrow> (case load_n n (ptr_add p 1) h of Inl e \<Rightarrow> Inl e | Inr xs \<Rightarrow> Inr (x # xs)))"

definition iterate :: "elem_ptr \<Rightarrow> elem_ptr \<Rightarrow> 'e heap \<Rightarrow> error + 'e list" where
  "iterate p q h =
     (if block_of p = block_of q \<and> index_of p \<le> index_of q
      then load_n (index_of q - index_of p) p h
      else Inl Undefined)"

text \<open>
  \<open>std::copy_if(first, last, d_first, pred)\<close>; the source range is the list of
  the values it yields.
\<close>

fun copy_if :: "'e list \<Rightarrow> elem_ptr \<Rightarrow> ('e \<Rightarrow> bool) \<Rightarrow> 'e heap \<Rightarrow> error + 'e heap" where
  "copy_if [] d pred h = Inr h"
| "copy_if (x # xs) d pred h =
     (if pred x
      then (case ptr_store d x h of Inl e \<Rightarrow> Inl e | Inr h' \<Rightarrow> copy_if xs (ptr_add d 1) pred h')
      else copy_if xs d pred h)"

subsection \<open>Members shared by the FAM classes\<close>

text \<open>
  \<open>MsrList\<close>, \<open>CpuidList\<close> and \<open>IrqRoutingList\<close> repeat the same member
  functions over their own struct; they are written once here, over the sizes and
  the sized constructor of the class.
\<close>

text \<open>The sized constructor: \<open>FamStruct(units)\<close>, then the count is stored.\<close>

definition fam_ctor ::
  "nat \<Rightarrow> nat \<Rightarrow> nat \<Rightarrow> 'e \<Rightarrow> 64 word \<Rightarrow> 32 word \<Rightarrow> 'e heap \<Rightarrow> error + (FamStruct \<times> 'e heap)"
where
  "fam_ctor ub hb eb z units c h =
     (case FamStruct_new ub hb eb z units h of
        Inl e \<Rightarrow> Inl e
      | Inr (l, h1) \<Rightarrow>
          (case store_count hb c l h1 of Inl e \<Rightarrow> Inl e | Inr h2 \<Rightarrow> Inr (l, h2)))"

text \<open>\<open>size()\<close>: \<open>return ptr_->nmsrs\<close>.\<close>

definition fam_size :: "FamStruct \<Rightarrow> 'e heap \<Rightarrow> error + 32 word" where
  "fam_size l h = (case deref l h of Inl e \<Rightarrow> Inl e | Inr (a, b) \<Rightarrow> Inr (hdr_count b))"

text \<open>\<open>begin()\<close>: \<open>return ptr_->entries\<close>; \<open>end()\<close>: \<open>return ptr_->entries + ptr_->nmsrs\<close>.\<close>

definition fam_begin :: "bool \<Rightarrow> FamStruct \<Rightarrow> error + elem_ptr" where
  "fam_begin c l = (case ptr l of None \<Rightarrow> Inl Undefined | Some a \<Rightarrow> Inr (ElemPtr c a 0))"

definition fam_end :: "bool \<Rightarrow> FamStruct \<Rightarrow> 'e heap \<Rightarrow> error + elem_ptr" where
  "fam_end c l h =
     (case deref l h of
        Inl e \<Rightarrow> Inl e
      | Inr (a, b) \<Rightarrow> Inr (ElemPtr c a (unat (hdr_count b))))"

text \<open>What a loop from \<open>begin()\<close> to \<open>end()\<close> reads.\<close>

definition fam_elems :: "FamStruct \<Rightarrow> 'e heap \<Rightarrow> error + 'e list" where
  "fam_elems l h =
     (case fam_begin True l of
        Inl e \<Rightarrow> Inl e
      | Inr p \<Rightarrow>
          (case fam_end True l h of Inl e \<Rightarrow> Inl e | Inr q \<Rightarrow> iterate p q h))"

text \<open>The constructor from one entry: \<open>: List(1) { ptr_->entries[0] = entry; }\<close>.\<close>

definition fam_single ::
  "(64 word \<Rightarrow> 'e heap \<Rightarrow> error + (FamStruct \<times> 'e heap)) \<Rightarrow> 'e \<Rightarrow> 'e heap
     \<Rightarrow> error + (FamStruct \<times> 'e heap)"
where
  "fam_single ctor entry h =
     (case ctor 1 h of
        Inl e \<Rightarrow> Inl e
      | Inr (l, h1) \<Rightarrow>
          (case fam_begin False l of
             Inl e \<Rightarrow> Inl e
           | Inr d \<Rightarrow> (case ptr_store d entry h1 of Inl e \<Rightarrow> Inl e | Inr h2 \<Rightarrow> Inr (l, h2))))"

text \<open>
  The range constructor:
  \<open>List(Iterator first, Iterator last) : List(std::distance(first, last))
   { std::copy_if(first, last, ptr_->entries, [](value_type) { return true; }); }\<close>.
\<close>

definition fam_range ::
  "(64 word \<Rightarrow> 'e heap \<Rightarrow> error + (FamStruct \<times> 'e heap)) \<Rightarrow> 'e list \<Rightarrow> 'e heap
     \<Rightarrow> error + (FamStruct \<times> 'e heap)"
where
  "fam_range ctor xs h =
     (case ctor (of_nat (length xs)) h of
        Inl e \<Rightarrow> Inl e
      | Inr (l, h1) \<Rightarrow>
          (case fam_begin False l of
             Inl e \<Rightarrow> Inl e
           | Inr d \<Rightarrow>
               (case copy_if xs d (\<lambda>x. True) h1 of Inl e \<Rightarrow> Inl e | Inr h2 \<Rightarrow> Inr (l, h2))))"

text \<open>
  The copy constructor: \<open>List(const List& other) : List(other.begin(), other.end())\<close>.
  The source range lies in another block than the one the new object allocates, so
  reading it before the allocation gives the values the interleaved loop reads.
\<close>

definition fam_copy ::
  "(64 word \<Rightarrow> 'e heap \<Rightarrow> error + (FamStruct \<times> 'e heap)) \<Rightarrow> FamStruct \<Rightarrow> 'e heap
     \<Rightarrow> error + (FamStruct \<times> 'e heap)"
where
  "fam_copy ctor other h =
     (case fam_elems other h of Inl e \<Rightarrow> Inl e | Inr xs \<Rightarrow> fam_range ctor xs h)"

text \<open>
  The defaulted move constructor moves the \<open>unique_ptr\<close>: the new object takes the
  pointer and the source is left null.  The result is the pair (new object, source
  afterwards).
\<close>

definition fam_move :: "FamStruct \<Rightarrow> FamStruct \<times> FamStruct" where
  "fam_move other = (\<lparr>ptr = ptr other\<rparr>, other\<lparr>ptr := None\<rparr>)"

text \<open>
  \<open>operator=(List other) { other.ptr_.swap(this->ptr_); return *this; }\<close>: the
  parameter is taken by value, the pointers are swapped, and the parameter, now
  holding the old buffer of \<open>*this\<close>, is destroyed on return.
\<close>

definition fam_assign :: "FamStruct \<Rightarrow> FamStruct \<Rightarrow> 'e heap \<Rightarrow> error + (FamStruct \<times> 'e heap)" where
  "fam_assign this other h =
     (let other' = other\<lparr>ptr := ptr this\<rparr>; this' = this\<lparr>ptr := ptr other\<rparr>
      in case fam_destroy other' h of Inl e \<Rightarrow> Inl e | Inr h' \<Rightarrow> Inr (this', h'))"

text \<open>\<open>a = std::move(b)\<close>: the parameter is move-constructed from \<open>b\<close>.\<close>

definition fam_move_assign ::
  "FamStruct \<Rightarrow> FamStruct \<Rightarrow> 'e heap \<Rightarrow> error + (FamStruct \<times> FamStruct \<times> 'e heap)"
where
  "fam_move_assign a b h =
     (case fam_move b of
        (tmp, b') \<Rightarrow>
          (case fam_assign a tmp h of Inl e \<Rightarrow> Inl e | Inr (a', h') \<Rightarrow> Inr (a', b', h')))"

subsection \<open>MsrList: \<open>FamStruct<kvm_msrs, uint64_t>\<close>\<close>

record kvm_msr_entry =
  index :: "32 word"
  reserved :: "32 word"
  data :: "64 word"

definition zero_msr_entry :: kvm_msr_entry where
  "zero_msr_entry = \<lparr>index = 0, reserved = 0, data = 0\<rparr>"

text \<open>
  \<open>sizeof(uint64_t)\<close>, \<open>sizeof(kvm_msrs)\<close> (two \<open>__u32\<close>) and
  \<open>sizeof(kvm_msr_entry)\<close> (two \<open>__u32\<close> and a \<open>__u64\<close>).
\<close>

definition sizeof_uint64 :: nat where "sizeof_uint64 = 8"
definition sizeof_kvm_msrs :: nat where "sizeof_kvm_msrs = 8"
definition sizeof_kvm_msr_entry :: nat where "sizeof_kvm_msr_entry = 16"

text \<open>\<open>MsrList(const size_t n) : FamStruct(n * 2 + 1) { ptr_->nmsrs = n; }\<close>\<close>

definition MsrList_n ::
  "64 word \<Rightarrow> kvm_msr_entry heap \<Rightarrow> error + (FamStruct \<times> kvm_msr_entry heap)"
where
  "MsrList_n n =
     fam_ctor sizeof_uint64 sizeof_kvm_msrs sizeof_kvm_msr_entry zero_msr_entry
       (n * 2 + 1) (ucast n)"

definition MsrList_entry ::
  "kvm_msr_entry \<Rightarrow> kvm_msr_entry heap \<Rightarrow> error + (FamStruct \<times> kvm_msr_entry heap)"
where
  "MsrList_entry = fam_single MsrList_n"

definition MsrList_range ::
  "kvm_msr_entry list \<Rightarrow> kvm_msr_entry heap \<Rightarrow> error + (FamStruct \<times> kvm_msr_entry heap)"
where
  "MsrList_range = fam_range MsrList_n"

definition MsrList_copy ::
  "FamStruct \<Rightarrow> kvm_msr_entry heap \<Rightarrow> error + (FamStruct \<times> kvm_msr_entry heap)"
where
  "MsrList_copy = fam_copy MsrList_n"

definition MsrList_size :: "FamStruct \<Rightarrow> kvm_msr_entry heap \<Rightarrow> error + 32 word" where
  "MsrList_size = fam_size"

definition MsrList_begin :: "FamStruct \<Rightarrow> error + elem_ptr" where
  "MsrList_begin = fam_begin False"

definition MsrList_end :: "FamStruct \<Rightarrow> kvm_msr_entry heap \<Rightarrow> error + elem_ptr" where
  "MsrList_end = fam_end False"

definition MsrList_cbegin :: "FamStruct \<Rightarrow> error + elem_ptr" where
  "MsrList_cbegin = fam_begin True"

definition MsrList_cend :: "FamStruct \<Rightarrow> kvm_msr_entry heap \<Rightarrow> error + elem_ptr" where
  "MsrList_cend = fam_end True"

definition MsrList_elems :: "FamStruct \<Rightarrow> kvm_msr_entry heap \<Rightarrow> error + kvm_msr_entry list" where
  "MsrList_elems = fam_elems"

text \<open>\<open>MsrList(MsrList&& other) = default\<close> and \<open>operator=(MsrList other)\<close>.\<close>

definition MsrList_move :: "FamStruct \<Rightarrow> FamStruct \<times> FamStruct" where
  "MsrList_move = fam_move"

definition MsrList_assign ::
  "FamStruct \<Rightarrow> FamStruct \<Rightarrow> kvm_msr_entry heap \<Rightarrow> error + (FamStruct \<times> kvm_msr_entry heap)"
where
  "MsrList_assign = fam_assign"

definition MsrList_move_assign ::
  "FamStruct \<Rightarrow> FamStruct \<Rightarrow> kvm_msr_entry heap
     \<Rightarrow> error + (FamStruct \<times> FamStruct \<times> kvm_msr_entry heap)"
where
  "MsrList_move_assign = fam_move_assign"

text \<open>The implicit destructor destroys the member \<open>ptr_\<close>.\<close>

definition MsrList_dtor :: "FamStruct \<Rightarrow> kvm_msr_entry heap \<Rightarrow> error + kvm_msr_entry heap" where
  "MsrList_dtor = fam_destroy"

subsection \<open>CpuidList: \<open>FamStruct<kvm_cpuid2, uint32_t>\<close>\<close>

text \<open>
  \<open>struct kvm_cpuid_entry2 { __u32 function, index, flags, eax, ebx, ecx, edx;
  __u32 padding[3]; }\<close>
\<close>

record kvm_cpuid_entry2 =
  cpuid_function :: "32 word"
  cpuid_index :: "32 word"
  cpuid_flags :: "32 word"
  eax :: "32 word"
  ebx :: "32 word"
  ecx :: "32 word"
  edx :: "32 word"
  cpuid_padding :: "32 word \<times> 32 word \<times> 32 word"

definition zero_cpuid_entry :: kvm_cpuid_entry2 where
  "zero_cpuid_entry =
     \<lparr>cpuid_function = 0, cpuid_index = 0, cpuid_flags = 0, eax = 0, ebx = 0, ecx = 0,
      edx = 0, cpuid_padding = (0, 0, 0)\<rparr>"

definition sizeof_uint32 :: nat where "sizeof_uint32 = 4"
definition sizeof_kvm_cpuid2 :: nat where "sizeof_kvm_cpuid2 = 8"
definition sizeof_kvm_cpuid_entry2 :: nat where "sizeof_kvm_cpuid_entry2 = 40"

definition MAX_CPUID_ENTRIES :: "32 word" where "MAX_CPUID_ENTRIES = 80"

text \<open>
  \<open>CpuidList(const uint32_t n) : FamStruct(n * sizeof(value_type) + 2) { ptr_->nent = n; }\<close>;
  the product is computed in \<open>size_t\<close>.
\<close>

definition CpuidList_n ::
  "32 word \<Rightarrow> kvm_cpuid_entry2 heap \<Rightarrow> error + (FamStruct \<times> kvm_cpuid_entry2 heap)"
where
  "CpuidList_n n =
     fam_ctor sizeof_uint32 sizeof_kvm_cpuid2 sizeof_kvm_cpuid_entry2 zero_cpuid_entry
       (ucast n * of_nat sizeof_kvm_cpuid_entry2 + 2) n"

definition CpuidList_default ::
  "kvm_cpuid_entry2 heap \<Rightarrow> error + (FamStruct \<times> kvm_cpuid_entry2 heap)"
where
  "CpuidList_default = CpuidList_n MAX_CPUID_ENTRIES"

text \<open>
  The constructors that delegate to \<open>CpuidList(const uint32_t)\<close> pass a \<open>size_t\<close>
  or \<open>ptrdiff_t\<close>, which the call converts to \<open>uint32_t\<close>.
\<close>

definition CpuidList_entry ::
  "kvm_cpuid_entry2 \<Rightarrow> kvm_cpuid_entry2 heap \<Rightarrow> error + (FamStruct \<times> kvm_cpuid_entry2 heap)"
where
  "CpuidList_entry = fam_single (\<lambda>d. CpuidList_n (ucast d))"

definition CpuidList_range ::
  "kvm_cpuid_entry2 list \<Rightarrow> kvm_cpuid_entry2 heap
     \<Rightarrow> error + (FamStruct \<times> kvm_cpuid_entry2 heap)"
where
  "CpuidList_range = fam_range (\<lambda>d. CpuidList_n (ucast d))"

definition CpuidList_copy ::
  "FamStruct \<Rightarrow> kvm_cpuid_entry2 heap \<Rightarrow> error + (FamStruct \<times> kvm_cpuid_entry2 heap)"
where
  "CpuidList_copy = fam_copy (\<lambda>d. CpuidList_n (ucast d))"

definition CpuidList_size :: "FamStruct \<Rightarrow> kvm_cpuid_entry2 heap \<Rightarrow> error + 32 word" where
  "CpuidList_size = fam_size"

definition CpuidList_begin :: "FamStruct \<Rightarrow> error + elem_ptr" where
  "CpuidList_begin = fam_begin False"

definition CpuidList_end :: "FamStruct \<Rightarrow> kvm_cpuid_entry2 heap \<Rightarrow> error + elem_ptr" where
  "CpuidList_end = fam_end False"

definition CpuidList_elems ::
  "FamStruct \<Rightarrow> kvm_cpuid_entry2 heap \<Rightarrow> error + kvm_cpuid_entry2 list"
where
  "CpuidList_elems = fam_elems"

subsection \<open>IrqRoutingList\<close>

text \<open>
  \<open>IrqRoutingList(const uint32_t n) : FamStruct(n * (sizeof(value_type) / 2) + 1)
  { ptr_->nr = n; ptr_->flags = 0; }\<close>.
  The class declaration, which fixes the \<open>Buffer\<close> type, is not among the sources:
  \<open>ub = sizeof(Buffer)\<close> is a parameter, and so is the zero entry.
  \<open>struct kvm_irq_routing_entry\<close> is four \<open>__u32\<close> and a union padded to eight
  \<open>__u32\<close>; \<open>struct kvm_irq_routing\<close> is two \<open>__u32\<close> before the entries.
\<close>

definition sizeof_kvm_irq_routing :: nat where "sizeof_kvm_irq_routing = 8"
definition sizeof_kvm_irq_routing_entry :: nat where "sizeof_kvm_irq_routing_entry = 48"

definition IrqRoutingList_n ::
  "nat \<Rightarrow> 'e \<Rightarrow> 32 word \<Rightarrow> 'e heap \<Rightarrow> error + (FamStruct \<times> 'e heap)"
where
  "IrqRoutingList_n ub z n h =
     (case fam_ctor ub sizeof_kvm_irq_routing sizeof_kvm_irq_routing_entry z
             (ucast n * of_nat (sizeof_kvm_irq_routing_entry div 2) + 1) n h of
        Inl e \<Rightarrow> Inl e
      | Inr (l, h1) \<Rightarrow>
          (case store_pad sizeof_kvm_irq_routing 0 l h1 of
             Inl e \<Rightarrow> Inl e
           | Inr h2 \<Rightarrow> Inr (l, h2)))"

subsection \<open>MsrIndexList and MsrFeatureList: \<open>FamStruct<kvm_msr_list, uint32_t>\<close>\<close>

text \<open>\<open>struct kvm_msr_list { __u32 nmsrs; __u32 indices[0]; }\<close>\<close>

definition sizeof_kvm_msr_list :: nat where "sizeof_kvm_msr_list = 4"

text \<open>\<open>MsrIndexList(const size_t n) : FamStruct(n + 1) { ptr_->nmsrs = n; }\<close>\<close>

definition MsrIndexList_n ::
  "64 word \<Rightarrow> (32 word) heap \<Rightarrow> error + (FamStruct \<times> (32 word) heap)"
where
  "MsrIndexList_n n =
     fam_ctor sizeof_uint32 sizeof_kvm_msr_list sizeof_uint32 0 (n + 1) (ucast n)"

text \<open>\<open>MsrFeatureList::MsrFeatureList(const size_t n) : MsrIndexList(n) {}\<close>\<close>

definition MsrFeatureList_n ::
  "64 word \<Rightarrow> (32 word) heap \<Rightarrow> error + (FamStruct \<times> (32 word) heap)"
where
  "MsrFeatureList_n n = MsrIndexList_n n"

text \<open>
  \<open>data() noexcept -> pointer { return ptr_->indices; }\<close> and its \<open>const\<close>
  overload, which returns \<open>const_pointer\<close>.
\<close>

definition MsrIndexList_data :: "FamStruct \<Rightarrow> error + elem_ptr" where
  "MsrIndexList_data = fam_begin False"

definition MsrIndexList_data_const :: "FamStruct \<Rightarrow> error + elem_ptr" where
  "MsrIndexList_data_const = fam_begin True"

definition MsrIndexList_size :: "FamStruct \<Rightarrow> (32 word) heap \<Rightarrow> error + 32 word" where
  "MsrIndexList_size = fam_size"

definition MsrIndexList_empty :: "FamStruct \<Rightarrow> (32 word) heap \<Rightarrow> error + bool" where
  "MsrIndexList_empty l h =
     (case MsrIndexList_size l h of Inl e \<Rightarrow> Inl e | Inr n \<Rightarrow> Inr (n = 0))"

text \<open>
  \<open>begin() noexcept -> iterator { return data(); }\<close>,
  \<open>end() noexcept -> iterator { return data() + size(); }\<close>,
  \<open>begin() const noexcept -> const_iterator { return data(); }\<close>,
  \<open>end() const noexcept -> const_iterator { return begin() + size(); }\<close>,
  \<open>cbegin() const { return begin(); }\<close>, \<open>cend() const { return end(); }\<close>.
\<close>

definition MsrIndexList_begin :: "FamStruct \<Rightarrow> error + elem_ptr" where
  "MsrIndexList_begin l = MsrIndexList_data l"

definition MsrIndexList_end :: "FamStruct \<Rightarrow> (32 word) heap \<Rightarrow> error + elem_ptr" where
  "MsrIndexList_end l h =
     (case MsrIndexList_data l of
        Inl e \<Rightarrow> Inl e
      | Inr p \<Rightarrow>
          (case MsrIndexList_size l h of Inl e \<Rightarrow> Inl e | Inr n \<Rightarrow> Inr (ptr_add p (unat n))))"

definition MsrIndexList_begin_const :: "FamStruct \<Rightarrow> error + elem_ptr" where
  "MsrIndexList_begin_const l = MsrIndexList_data_const l"

definition MsrIndexList_end_const :: "FamStruct \<Rightarrow> (32 word) heap \<Rightarrow> error + elem_ptr" where
  "MsrIndexList_end_const l h =
     (case MsrIndexList_begin_const l of
        Inl e \<Rightarrow> Inl e
      | Inr p \<Rightarrow>
          (case MsrIndexList_size l h of Inl e \<Rightarrow> Inl e | Inr n \<Rightarrow> Inr (ptr_add p (unat n))))"

definition MsrIndexList_cbegin :: "FamStruct \<Rightarrow> error + elem_ptr" where
  "MsrIndexList_cbegin l = MsrIndexList_begin_const l"

definition MsrIndexList_cend :: "FamStruct \<Rightarrow> (32 word) heap \<Rightarrow> error + elem_ptr" where
  "MsrIndexList_cend l h = MsrIndexList_end_const l h"

text \<open>
  \<open>*(p + i) = v\<close> for a pointer \<open>p\<close> a member function returned, and the loop
  \<open>for (auto x : list)\<close> over a \<open>const\<close> list.
\<close>

definition write_at :: "error + elem_ptr \<Rightarrow> nat \<Rightarrow> 'e \<Rightarrow> 'e heap \<Rightarrow> error + 'e heap" where
  "write_at r i v h = (case r of Inl e \<Rightarrow> Inl e | Inr p \<Rightarrow> ptr_store (ptr_add p i) v h)"

definition MsrIndexList_elems :: "FamStruct \<Rightarrow> (32 word) heap \<Rightarrow> error + 32 word list" where
  "MsrIndexList_elems l h =
     (case MsrIndexList_cbegin l of
        Inl e \<Rightarrow> Inl e
      | Inr p \<Rightarrow> (case MsrIndexList_cend l h of Inl e \<Rightarrow> Inl e | Inr q \<Rightarrow> iterate p q h))"

section \<open>The root and machine nodes (system.cpp, vm.hpp, vm.cpp)\<close>

text \<open>Request codes and capability numbers of \<open><linux/kvm.h>\<close>.\<close>

definition KVM_CREATE_VM :: "64 word" where "KVM_CREATE_VM = 0xAE01"
definition KVM_CHECK_EXTENSION :: "64 word" where "KVM_CHECK_EXTENSION = 0xAE03"
definition KVM_GET_VCPU_MMAP_SIZE :: "64 word" where "KVM_GET_VCPU_MMAP_SIZE = 0xAE04"
definition KVM_CAP_NR_VCPUS :: "32 word" where "KVM_CAP_NR_VCPUS = 9"
definition KVM_CAP_NR_MEMSLOTS :: "32 word" where "KVM_CAP_NR_MEMSLOTS = 10"
definition KVM_CAP_MAX_VCPUS :: "32 word" where "KVM_CAP_MAX_VCPUS = 66"

text \<open>
  \<open>class system\<close> holds the descriptor \<open>fd_\<close> and the flag \<open>closed_\<close>;
  \<open>class vm\<close> holds \<open>m_fd\<close> and \<open>m_mmap_size\<close>.
\<close>

record system =
  system_fd :: "32 word"
  system_closed :: bool

record vm =
  m_fd :: "32 word"
  m_mmap_size :: "64 word"

text \<open>
  Modelled from the spec: \<open>utility::close(fd)\<close> is declared in utility.hpp and
  defined in a file that is not among the sources.  It issues the platform close
  \<open>kc\<close> once and fails with the system error carrying \<open>errno\<close> when the call
  reports a negative result.
\<close>

type_synonym 'k sys_close = "32 word \<Rightarrow> 'k \<Rightarrow> (32 word \<times> int) \<times> 'k"

definition utils_close :: "'k sys_close \<Rightarrow> 32 word \<Rightarrow> 'k \<Rightarrow> (error + unit) \<times> 'k" where
  "utils_close kc d s =
     (case kc d s of
        ((ret, errno), s') \<Rightarrow>
          if sint ret < 0 then (Inl (SystemError errno), s') else (Inr (), s'))"

text \<open>\<open>system::close() { utils::close(fd_); closed_ = true; }\<close>\<close>

definition system_close ::
  "'k sys_close \<Rightarrow> system \<Rightarrow> 'k \<Rightarrow> (error + unit) \<times> system \<times> 'k"
where
  "system_close kc sys s =
     (case utils_close kc (system_fd sys) s of
        (Inl e, s') \<Rightarrow> (Inl e, sys, s')
      | (Inr u, s') \<Rightarrow> (Inr (), sys\<lparr>system_closed := True\<rparr>, s'))"

text \<open>
  \<open>system::~system() noexcept { if (!closed_) { try { utils::close(fd_); }
  catch (std::system_error& e) { } } }\<close>: only a system error is caught.
\<close>

definition system_dtor :: "'k sys_close \<Rightarrow> system \<Rightarrow> 'k \<Rightarrow> (error + unit) \<times> 'k" where
  "system_dtor kc sys s =
     (if \<not> system_closed sys
      then (case utils_close kc (system_fd sys) s of
              (Inr u, s') \<Rightarrow> (Inr (), s')
            | (Inl (SystemError e), s') \<Rightarrow> (Inr (), s')
            | (Inl e, s') \<Rightarrow> (Inl e, s'))
      else (Inr (), s))"

text \<open>
  Two call sequences of a client: \<open>kvm.close(); kvm.close();\<close>, where the second
  call is reached when the first returns, and a scope in which \<open>kvm.close()\<close> is
  called, its exception (if any) is handled, and \<open>kvm\<close> is destroyed at the end.
\<close>

definition close_twice ::
  "'k sys_close \<Rightarrow> system \<Rightarrow> 'k \<Rightarrow> (error + unit) \<times> system \<times> 'k"
where
  "close_twice kc sys s =
     (case system_close kc sys s of
        (Inl e, sys1, s1) \<Rightarrow> (Inl e, sys1, s1)
      | (Inr u, sys1, s1) \<Rightarrow> system_close kc sys1 s1)"

definition close_then_dtor :: "'k sys_close \<Rightarrow> system \<Rightarrow> 'k \<Rightarrow> (error + unit) \<times> 'k" where
  "close_then_dtor kc sys s =
     (case system_close kc sys s of (r, sys1, s1) \<Rightarrow> system_dtor kc sys1 s1)"

text \<open>
  \<open>system::create_vm()\<close> and \<open>system::vcpu_mmap_size()\<close>: one request each, with
  the default argument \<open>int{}\<close>.
\<close>

definition system_create_vm ::
  "(64 word, 'k) sys_ioctl \<Rightarrow> system \<Rightarrow> 'k \<Rightarrow> (error + 32 word) \<times> 'k"
where
  "system_create_vm k sys s = ioctl k (system_fd sys) KVM_CREATE_VM 0 s"

definition system_vcpu_mmap_size ::
  "(64 word, 'k) sys_ioctl \<Rightarrow> system \<Rightarrow> 'k \<Rightarrow> (error + 32 word) \<times> 'k"
where
  "system_vcpu_mmap_size k sys s = ioctl k (system_fd sys) KVM_GET_VCPU_MMAP_SIZE 0 s"

text \<open>
  \<open>system::vm() { const auto mmap_size {vcpu_mmap_size()}; const auto fd {create_vm()};
  return vmm::kvm::vm{fd, mmap_size}; }\<close> with the constructor
  \<open>vm(int fd, std::size_t mmap_size) : m_fd{fd}, m_mmap_size{mmap_size}\<close>.
\<close>

definition system_vm :: "(64 word, 'k) sys_ioctl \<Rightarrow> system \<Rightarrow> 'k \<Rightarrow> (error + vm) \<times> 'k" where
  "system_vm k sys s =
     (case system_vcpu_mmap_size k sys s of
        (Inl e, s1) \<Rightarrow> (Inl e, s1)
      | (Inr mmap_size, s1) \<Rightarrow>
          (case system_create_vm k sys s1 of
             (Inl e, s2) \<Rightarrow> (Inl e, s2)
           | (Inr d, s2) \<Rightarrow> (Inr \<lparr>m_fd = d, m_mmap_size = ucast mmap_size\<rparr>, s2)))"

definition vm_mmap_size :: "vm \<Rightarrow> 64 word" where
  "vm_mmap_size v = m_mmap_size v"

text \<open>
  Modelled from the spec: \<open>KvmFd::ioctl\<close>, the member of the descriptor owner
  (file_descriptor.hpp, not among the sources) through which \<open>class vm\<close> issues its
  requests.  The handle exposes the dispatch primitive on the descriptor it owns.
\<close>

definition KvmFd_ioctl ::
  "('a, 'k) sys_ioctl \<Rightarrow> 32 word \<Rightarrow> 64 word \<Rightarrow> 'a \<Rightarrow> 'k \<Rightarrow> (error + 32 word) \<times> 'k"
where
  "KvmFd_ioctl k d req arg s = ioctl k d req arg s"

text \<open>\<open>vm::check_extension(unsigned cap) { return m_fd.ioctl(KVM_CHECK_EXTENSION, cap); }\<close>\<close>

definition vm_check_extension ::
  "(64 word, 'k) sys_ioctl \<Rightarrow> vm \<Rightarrow> 32 word \<Rightarrow> 'k \<Rightarrow> (error + 32 word) \<times> 'k"
where
  "vm_check_extension k v cap s = KvmFd_ioctl k (m_fd v) KVM_CHECK_EXTENSION (ucast cap) s"

text \<open>\<open>auto ret = check_extension(KVM_CAP_NR_VCPUS); return ret > 0 ? ret : 4;\<close>\<close>

definition vm_num_vcpus ::
  "(64 word, 'k) sys_ioctl \<Rightarrow> vm \<Rightarrow> 'k \<Rightarrow> (error + 32 word) \<times> 'k"
where
  "vm_num_vcpus k v s =
     (case vm_check_extension k v KVM_CAP_NR_VCPUS s of
        (Inl e, s1) \<Rightarrow> (Inl e, s1)
      | (Inr ret, s1) \<Rightarrow> (Inr (if 0 < ret then ret else 4), s1))"

text \<open>\<open>auto ret = check_extension(KVM_CAP_MAX_VCPUS); return ret > 0 ? ret : num_vcpus();\<close>\<close>

definition vm_max_vcpus ::
  "(64 word, 'k) sys_ioctl \<Rightarrow> vm \<Rightarrow> 'k \<Rightarrow> (error + 32 word) \<times> 'k"
where
  "vm_max_vcpus k v s =
     (case vm_check_extension k v KVM_CAP_MAX_VCPUS s of
        (Inl e, s1) \<Rightarrow> (Inl e, s1)
      | (Inr ret, s1) \<Rightarrow> if 0 < ret then (Inr ret, s1) else vm_num_vcpus k v s1)"

text \<open>\<open>auto ret = check_extension(KVM_CAP_NR_MEMSLOTS); return ret > 0 ? ret : 32;\<close>\<close>

definition vm_num_memslots ::
  "(64 word, 'k) sys_ioctl \<Rightarrow> vm \<Rightarrow> 'k \<Rightarrow> (error + 32 word) \<times> 'k"
where
  "vm_num_memslots k v s =
     (case vm_check_extension k v KVM_CAP_NR_MEMSLOTS s of
        (Inl e, s1) \<Rightarrow> (Inl e, s1)
      | (Inr ret, s1) \<Rightarrow> (Inr (if 0 < ret then ret else 32), s1))"

section \<open>Properties\<close>

subsection \<open>The free store\<close>

lemma lookup_append_new [simp]:
  "lookup (h\<lparr>blocks := blocks h @ [x], avail := v\<rparr>) (length (blocks h)) = x"
  by (simp add: lookup_def)

lemma lookup_SomeD: "lookup h a = Some b \<Longrightarrow> a < length (blocks h)"
  by (simp add: lookup_def split: if_splits)

lemma deref_new:
  "deref \<lparr>ptr = Some (length (blocks h))\<rparr> (h\<lparr>blocks := blocks h @ [Some b], avail := v\<rparr>)
     = Inr (length (blocks h), b)"
  by (simp add: deref_def)

lemma deref_append:
  "deref r h = Inr (a, b) \<Longrightarrow>
   deref r (h\<lparr>blocks := blocks h @ ys, avail := v\<rparr>) = Inr (a, b)"
  by (auto simp: deref_def lookup_def nth_append split: option.splits if_splits)

lemma deref_less: "deref r h = Inr (a, b) \<Longrightarrow> a < length (blocks h)"
  by (auto simp: deref_def lookup_def split: option.splits if_splits)

lemma load_n_take_drop:
  "lookup h (block_of p) = Some b \<Longrightarrow> index_of p + n \<le> length (trailing b) \<Longrightarrow>
   load_n n p h = Inr (take n (drop (index_of p) (trailing b)))"
proof (induction n arbitrary: p)
  case 0
  then show ?case by simp
next
  case (Suc n)
  have "load_n n (ptr_add p 1) h = Inr (take n (drop (index_of (ptr_add p 1)) (trailing b)))"
    using Suc.prems by (intro Suc.IH) (simp_all add: ptr_add_def)
  moreover have "ptr_load p h = Inr (trailing b ! index_of p)"
    using Suc.prems by (simp add: ptr_load_def)
  moreover have "trailing b ! index_of p # take n (drop (Suc (index_of p)) (trailing b))
      = take (Suc n) (drop (index_of p) (trailing b))"
  proof -
    have "index_of p < length (trailing b)" using Suc.prems by simp
    then have "drop (index_of p) (trailing b)
        = trailing b ! index_of p # drop (Suc (index_of p)) (trailing b)"
      by (simp add: Cons_nth_drop_Suc)
    then show ?thesis by simp
  qed
  ultimately show ?case by (simp add: ptr_add_def)
qed

lemma fam_elems_take:
  assumes "deref l h = Inr (a, b)" "unat (hdr_count b) \<le> length (trailing b)"
  shows "fam_elems l h = Inr (take (unat (hdr_count b)) (trailing b))"
proof -
  from assms(1) have p: "ptr l = Some a" and lk: "lookup h a = Some b"
    by (auto simp: deref_def split: option.splits)
  show ?thesis
    using load_n_take_drop [of h "ElemPtr True a 0" b "unat (hdr_count b)"] assms p lk
    by (simp add: fam_elems_def fam_begin_def fam_end_def iterate_def)
qed

lemma fam_elems_append:
  assumes "deref r h = Inr (a, b)" "unat (hdr_count b) \<le> length (trailing b)"
  shows "fam_elems r (h\<lparr>blocks := blocks h @ ys, avail := v\<rparr>) = fam_elems r h"
  using fam_elems_take [OF deref_append [OF assms(1), where ys = ys and v = v] assms(2)]
    fam_elems_take [OF assms] by simp

lemma copy_if_all:
  "lookup h (block_of d) = Some b \<Longrightarrow> \<not> is_const d \<Longrightarrow>
   index_of d + length xs \<le> length (trailing b) \<Longrightarrow>
   copy_if xs d (\<lambda>x. True) h =
     Inr (h\<lparr>blocks := (blocks h)[block_of d :=
            Some (b\<lparr>trailing := take (index_of d) (trailing b) @ xs
                       @ drop (index_of d + length xs) (trailing b)\<rparr>)]\<rparr>)"
proof (induction xs arbitrary: d h b)
  case Nil
  then have "blocks h ! block_of d = Some b" "block_of d < length (blocks h)"
    by (simp_all add: lookup_def split: if_splits)
  then have "(blocks h)[block_of d := Some b] = blocks h"
    by (metis list_update_id)
  then show ?case using Nil by simp
next
  case (Cons x xs)
  let ?b' = "b\<lparr>trailing := (trailing b)[index_of d := x]\<rparr>"
  let ?h' = "h\<lparr>blocks := (blocks h)[block_of d := Some ?b']\<rparr>"
  have lt: "block_of d < length (blocks h)" using Cons.prems(1) by (rule lookup_SomeD)
  have st: "ptr_store d x h = Inr ?h'"
    using Cons.prems by (simp add: ptr_store_def)
  have lk: "lookup ?h' (block_of (ptr_add d 1)) = Some ?b'"
    using lt by (simp add: ptr_add_def lookup_def)
  have "copy_if xs (ptr_add d 1) (\<lambda>x. True) ?h' =
     Inr (?h'\<lparr>blocks := (blocks ?h')[block_of (ptr_add d 1) :=
            Some (?b'\<lparr>trailing := take (index_of (ptr_add d 1)) (trailing ?b') @ xs
                       @ drop (index_of (ptr_add d 1) + length xs) (trailing ?b')\<rparr>)]\<rparr>)"
    using Cons.prems by (intro Cons.IH [OF lk]) (simp_all add: ptr_add_def)
  moreover have "take (Suc (index_of d)) ((trailing b)[index_of d := x])
      = take (index_of d) (trailing b) @ [x]"
    using Cons.prems by (simp add: take_Suc_conv_app_nth)
  ultimately show ?case using st by (simp add: ptr_add_def)
qed

lemma write_new_block:
  assumes "i < length (trailing nb)"
  shows "write_at (fam_begin False \<lparr>ptr = Some (length (blocks h))\<rparr>) i x
           (h\<lparr>blocks := blocks h @ [Some nb], avail := v\<rparr>)
         = Inr (h\<lparr>blocks := blocks h @ [Some (nb\<lparr>trailing := (trailing nb)[i := x]\<rparr>)],
                  avail := v\<rparr>)"
  using assms by (simp add: write_at_def fam_begin_def ptr_add_def ptr_store_def lookup_def)

subsection \<open>The constructors\<close>

lemma fam_ctor_fail:
  "avail h < ub * unat units \<Longrightarrow> fam_ctor ub hb eb z units c h = Inl BadAlloc"
  by (simp add: fam_ctor_def FamStruct_new_def)

lemma fam_ctor_ok:
  assumes "ub * unat units \<le> avail h" "hb \<le> ub * unat units"
  shows "fam_ctor ub hb eb z units c h =
     Inr (\<lparr>ptr = Some (length (blocks h))\<rparr>,
          h\<lparr>blocks := blocks h @
                [Some \<lparr>nbytes = ub * unat units, hdr_count = c, hdr_pad = 0,
                       trailing = replicate ((ub * unat units - hb) div eb) z\<rparr>],
            avail := avail h - ub * unat units\<rparr>)"
  using assms
  by (simp add: fam_ctor_def FamStruct_new_def store_count_def deref_def lookup_def Let_def)

lemma unat32_lt: "unat (c :: 32 word) < 2 ^ 32"
  using unsigned_less [of c] by simp

lemma ucast_ucast32: "ucast (ucast (c :: 32 word) :: 64 word) = c"
  by (simp add: ucast_up_ucast_id is_up)

lemma unat_ucast32: "unat (ucast (c :: 32 word) :: 64 word) = unat c"
proof -
  have "unat c < 2 ^ 64" using unat32_lt [of c] by simp
  then show ?thesis by (simp add: unsigned_ucast_eq take_bit_nat_eq_self)
qed

lemma unat_of_nat_len64: "n < 2 ^ 64 \<Longrightarrow> unat (of_nat n :: 64 word) = n"
  by (simp add: unat_of_nat)

lemma unat_msr_units: "unat n < 2 ^ 63 \<Longrightarrow> unat (n * 2 + 1 :: 64 word) = 2 * unat n + 1"
  by (simp add: unat_word_ariths)

lemma MsrList_n_ok:
  assumes "unat n < 2 ^ 63" "8 + 16 * unat n \<le> avail h"
  shows "MsrList_n n h =
     Inr (\<lparr>ptr = Some (length (blocks h))\<rparr>,
          h\<lparr>blocks := blocks h @
                [Some \<lparr>nbytes = 8 + 16 * unat n, hdr_count = ucast n, hdr_pad = 0,
                       trailing = replicate (unat n) zero_msr_entry\<rparr>],
            avail := avail h - (8 + 16 * unat n)\<rparr>)"
proof -
  have u: "sizeof_uint64 * unat (n * 2 + 1) = 8 + 16 * unat n"
    using assms(1) by (simp add: unat_msr_units sizeof_uint64_def)
  have "(8 + 16 * unat n - sizeof_kvm_msrs) div sizeof_kvm_msr_entry = unat n"
    by (simp add: sizeof_kvm_msrs_def sizeof_kvm_msr_entry_def)
  then show ?thesis
    unfolding MsrList_n_def
    using fam_ctor_ok [of sizeof_uint64 "n * 2 + 1" h sizeof_kvm_msrs sizeof_kvm_msr_entry
        zero_msr_entry "ucast n"] assms(2) u
    by (simp add: sizeof_kvm_msrs_def)
qed

lemma MsrList_n_fail:
  assumes "unat n < 2 ^ 63" "avail h < 8 + 16 * unat n"
  shows "MsrList_n n h = Inl BadAlloc"
  unfolding MsrList_n_def using assms
  by (intro fam_ctor_fail) (simp add: unat_msr_units sizeof_uint64_def)

lemma unat_cpuid_units: "unat (ucast (n :: 32 word) * 40 + 2 :: 64 word) = 40 * unat n + 2"
proof -
  have lt: "unat n < 2 ^ 32" using unsigned_less [of n] by simp
  then have "unat n < 2 ^ 64" by simp
  then have "unat (ucast n :: 64 word) = unat n"
    by (simp add: unsigned_ucast_eq take_bit_nat_eq_self)
  with lt show ?thesis
    by (simp add: unat_word_ariths)
qed

lemma CpuidList_n_ok:
  assumes "8 + 160 * unat n \<le> avail h"
  shows "CpuidList_n n h =
     Inr (\<lparr>ptr = Some (length (blocks h))\<rparr>,
          h\<lparr>blocks := blocks h @
                [Some \<lparr>nbytes = 8 + 160 * unat n, hdr_count = n, hdr_pad = 0,
                       trailing = replicate (4 * unat n) zero_cpuid_entry\<rparr>],
            avail := avail h - (8 + 160 * unat n)\<rparr>)"
proof -
  have u: "sizeof_uint32 * unat (ucast n * of_nat sizeof_kvm_cpuid_entry2 + 2 :: 64 word)
      = 8 + 160 * unat n"
    by (simp add: unat_cpuid_units sizeof_uint32_def sizeof_kvm_cpuid_entry2_def)
  have "(8 + 160 * unat n - sizeof_kvm_cpuid2) div sizeof_kvm_cpuid_entry2 = 4 * unat n"
    by (simp add: sizeof_kvm_cpuid2_def sizeof_kvm_cpuid_entry2_def)
  then show ?thesis
    unfolding CpuidList_n_def
    using fam_ctor_ok [of sizeof_uint32 "ucast n * of_nat sizeof_kvm_cpuid_entry2 + 2" h
        sizeof_kvm_cpuid2 sizeof_kvm_cpuid_entry2 zero_cpuid_entry n] assms u
    by (simp add: sizeof_kvm_cpuid2_def)
qed

lemma CpuidList_n_fail:
  assumes "avail h < 8 + 160 * unat n"
  shows "CpuidList_n n h = Inl BadAlloc"
  unfolding CpuidList_n_def using assms
  by (intro fam_ctor_fail)
     (simp add: unat_cpuid_units sizeof_uint32_def sizeof_kvm_cpuid_entry2_def)

lemma unat_index_units: "unat n < 2 ^ 32 \<Longrightarrow> unat (n + 1 :: 64 word) = unat n + 1"
  by (simp add: unat_word_ariths)

lemma MsrIndexList_n_ok:
  assumes "unat n < 2 ^ 32" "4 + 4 * unat n \<le> avail h"
  shows "MsrIndexList_n n h =
     Inr (\<lparr>ptr = Some (length (blocks h))\<rparr>,
          h\<lparr>blocks := blocks h @
                [Some \<lparr>nbytes = 4 + 4 * unat n, hdr_count = ucast n, hdr_pad = 0,
                       trailing = replicate (unat n) 0\<rparr>],
            avail := avail h - (4 + 4 * unat n)\<rparr>)"
proof -
  have u: "sizeof_uint32 * unat (n + 1) = 4 + 4 * unat n"
    using assms(1) by (simp add: unat_index_units sizeof_uint32_def)
  have "(4 + 4 * unat n - sizeof_kvm_msr_list) div sizeof_uint32 = unat n"
    by (simp add: sizeof_kvm_msr_list_def sizeof_uint32_def)
  then show ?thesis
    unfolding MsrIndexList_n_def
    using fam_ctor_ok [of sizeof_uint32 "n + 1" h sizeof_kvm_msr_list sizeof_uint32
        "0 :: 32 word" "ucast n"] assms(2) u
    by (simp add: sizeof_kvm_msr_list_def)
qed

lemma MsrIndexList_n_fail:
  assumes "unat n < 2 ^ 32" "avail h < 4 + 4 * unat n"
  shows "MsrIndexList_n n h = Inl BadAlloc"
  unfolding MsrIndexList_n_def using assms
  by (intro fam_ctor_fail) (simp add: unat_index_units sizeof_uint32_def)

lemma fam_range_ok:
  assumes c: "ctor (of_nat (length xs)) h =
      Inr (\<lparr>ptr = Some (length (blocks h))\<rparr>, h\<lparr>blocks := blocks h @ [Some b], avail := v\<rparr>)"
    and len: "length xs \<le> length (trailing b)"
  shows "fam_range ctor xs h =
      Inr (\<lparr>ptr = Some (length (blocks h))\<rparr>,
           h\<lparr>blocks := blocks h @ [Some (b\<lparr>trailing := xs @ drop (length xs) (trailing b)\<rparr>)],
             avail := v\<rparr>)"
proof -
  let ?h1 = "h\<lparr>blocks := blocks h @ [Some b], avail := v\<rparr>"
  let ?d = "ElemPtr False (length (blocks h)) 0"
  have lk: "lookup ?h1 (block_of ?d) = Some b" by (simp add: lookup_def)
  have "copy_if xs ?d (\<lambda>x. True) ?h1 =
      Inr (?h1\<lparr>blocks := (blocks ?h1)[block_of ?d :=
            Some (b\<lparr>trailing := take (index_of ?d) (trailing b) @ xs
                       @ drop (index_of ?d + length xs) (trailing b)\<rparr>)]\<rparr>)"
    using len by (intro copy_if_all [OF lk]) simp_all
  then show ?thesis
    using c by (simp add: fam_range_def fam_begin_def)
qed

lemma MsrList_range_ok:
  assumes "length xs < 2 ^ 63" "8 + 16 * length xs \<le> avail h"
  shows "MsrList_range xs h =
     Inr (\<lparr>ptr = Some (length (blocks h))\<rparr>,
          h\<lparr>blocks := blocks h @
                [Some \<lparr>nbytes = 8 + 16 * length xs,
                       hdr_count = ucast (of_nat (length xs) :: 64 word), hdr_pad = 0,
                       trailing = xs\<rparr>],
            avail := avail h - (8 + 16 * length xs)\<rparr>)"
proof -
  have u: "unat (of_nat (length xs) :: 64 word) = length xs"
    using assms(1) by (intro unat_of_nat_len64) simp
  have "MsrList_n (of_nat (length xs)) h =
     Inr (\<lparr>ptr = Some (length (blocks h))\<rparr>,
          h\<lparr>blocks := blocks h @
                [Some \<lparr>nbytes = 8 + 16 * length xs,
                       hdr_count = ucast (of_nat (length xs) :: 64 word), hdr_pad = 0,
                       trailing = replicate (length xs) zero_msr_entry\<rparr>],
            avail := avail h - (8 + 16 * length xs)\<rparr>)"
    using MsrList_n_ok [of "of_nat (length xs)" h] assms u by simp
  then show ?thesis
    using fam_range_ok [where ctor = MsrList_n and xs = xs and h = h
        and v = "avail h - (8 + 16 * length xs)"]
    by (simp add: MsrList_range_def)
qed

lemma CpuidList_range_ok:
  assumes "length xs < 2 ^ 32" "8 + 160 * length xs \<le> avail h"
  shows "CpuidList_range xs h =
     Inr (\<lparr>ptr = Some (length (blocks h))\<rparr>,
          h\<lparr>blocks := blocks h @
                [Some \<lparr>nbytes = 8 + 160 * length xs,
                       hdr_count = of_nat (length xs), hdr_pad = 0,
                       trailing = xs @ replicate (3 * length xs) zero_cpuid_entry\<rparr>],
            avail := avail h - (8 + 160 * length xs)\<rparr>)"
proof -
  have "length xs < 2 ^ 64" using assms(1) by simp
  then have uc: "ucast (of_nat (length xs) :: 64 word) = (of_nat (length xs) :: 32 word)"
    by (simp add: unsigned_of_nat take_bit_nat_eq_self)
  have u: "unat (of_nat (length xs) :: 32 word) = length xs"
    using assms(1) by (simp add: unat_of_nat)
  have "CpuidList_n (ucast (of_nat (length xs) :: 64 word)) h =
     Inr (\<lparr>ptr = Some (length (blocks h))\<rparr>,
          h\<lparr>blocks := blocks h @
                [Some \<lparr>nbytes = 8 + 160 * length xs,
                       hdr_count = of_nat (length xs), hdr_pad = 0,
                       trailing = replicate (4 * length xs) zero_cpuid_entry\<rparr>],
            avail := avail h - (8 + 160 * length xs)\<rparr>)"
    using CpuidList_n_ok [of "of_nat (length xs)" h] assms u uc by simp
  then have "fam_range (\<lambda>d. CpuidList_n (ucast d)) xs h =
     Inr (\<lparr>ptr = Some (length (blocks h))\<rparr>,
          h\<lparr>blocks := blocks h @
                [Some \<lparr>nbytes = 8 + 160 * length xs,
                       hdr_count = of_nat (length xs), hdr_pad = 0,
                       trailing = xs @ drop (length xs)
                         (replicate (4 * length xs) zero_cpuid_entry)\<rparr>],
            avail := avail h - (8 + 160 * length xs)\<rparr>)"
    using fam_range_ok [where ctor = "\<lambda>d. CpuidList_n (ucast d)" and xs = xs and h = h
        and v = "avail h - (8 + 160 * length xs)"]
    by simp
  then show ?thesis
    by (simp add: CpuidList_range_def)
qed

lemma fam_copy_ok:
  assumes d: "deref r h = Inr (a, b)" and le: "unat (hdr_count b) \<le> length (trailing b)"
    and c: "ctor (of_nat (unat (hdr_count b))) h =
      Inr (\<lparr>ptr = Some (length (blocks h))\<rparr>, h\<lparr>blocks := blocks h @ [Some nb], avail := v\<rparr>)"
    and cap: "unat (hdr_count b) \<le> length (trailing nb)"
  shows "fam_copy ctor r h =
      Inr (\<lparr>ptr = Some (length (blocks h))\<rparr>,
           h\<lparr>blocks := blocks h @
                 [Some (nb\<lparr>trailing := take (unat (hdr_count b)) (trailing b)
                            @ drop (unat (hdr_count b)) (trailing nb)\<rparr>)],
             avail := v\<rparr>)"
proof -
  let ?xs = "take (unat (hdr_count b)) (trailing b)"
  have len: "length ?xs = unat (hdr_count b)" using le by simp
  have e: "fam_elems r h = Inr ?xs" using d le by (rule fam_elems_take)
  have "fam_range ctor ?xs h =
      Inr (\<lparr>ptr = Some (length (blocks h))\<rparr>,
           h\<lparr>blocks := blocks h @
                 [Some (nb\<lparr>trailing := ?xs @ drop (length ?xs) (trailing nb)\<rparr>)],
             avail := v\<rparr>)"
    using c cap len
    by (intro fam_range_ok [where ctor = ctor and xs = ?xs and h = h and v = v and b = nb])
      simp_all
  then show ?thesis using e len by (simp add: fam_copy_def)
qed

lemma fam_copy_deep:
  assumes d: "deref r h = Inr (a, b)" and le: "unat (hdr_count b) \<le> length (trailing b)"
    and c: "ctor (of_nat (unat (hdr_count b))) h =
      Inr (\<lparr>ptr = Some (length (blocks h))\<rparr>, h\<lparr>blocks := blocks h @ [Some nb], avail := v\<rparr>)"
    and cap: "unat (hdr_count b) \<le> length (trailing nb)"
    and cnt: "hdr_count nb = hdr_count b"
  shows "\<exists>c h'. fam_copy ctor r h = Inr (c, h')
          \<and> fam_elems r h = Inr (take (unat (hdr_count b)) (trailing b))
          \<and> fam_elems c h' = fam_elems r h
          \<and> fam_size c h' = fam_size r h
          \<and> fam_size r h = Inr (hdr_count b)
          \<and> alloc_bytes c h' = Inr (nbytes nb)
          \<and> deref c h' = Inr (length (blocks h),
                nb\<lparr>trailing := take (unat (hdr_count b)) (trailing b)
                     @ drop (unat (hdr_count b)) (trailing nb)\<rparr>)
          \<and> fam_elems r h' = fam_elems r h
          \<and> get c \<noteq> get r
          \<and> (\<forall>i x. i < unat (hdr_count b) \<longrightarrow>
                (\<exists>h''. write_at (fam_begin False c) i x h' = Inr h''
                   \<and> fam_elems r h'' = fam_elems r h
                   \<and> fam_elems c h'' = Inr ((take (unat (hdr_count b)) (trailing b))[i := x])))"
proof -
  let ?n = "unat (hdr_count b)"
  let ?xs = "take ?n (trailing b)"
  let ?nb = "nb\<lparr>trailing := ?xs @ drop ?n (trailing nb)\<rparr>"
  let ?c = "\<lparr>ptr = Some (length (blocks h))\<rparr>"
  let ?h = "h\<lparr>blocks := blocks h @ [Some ?nb], avail := v\<rparr>"
  have len: "length ?xs = ?n" using le by simp
  have cp: "fam_copy ctor r h = Inr (?c, ?h)" using d le c cap by (rule fam_copy_ok)
  have er: "fam_elems r h = Inr ?xs" using d le by (rule fam_elems_take)
  have dc: "deref ?c ?h = Inr (length (blocks h), ?nb)" by (rule deref_new)
  have ec: "fam_elems ?c ?h = Inr ?xs"
    using fam_elems_take [OF dc] cnt cap len by simp
  have sz: "fam_size ?c ?h = fam_size r h" "fam_size r h = Inr (hdr_count b)"
    using dc d cnt by (simp_all add: fam_size_def)
  have ab: "alloc_bytes ?c ?h = Inr (nbytes nb)" using dc by (simp add: alloc_bytes_def)
  have er': "fam_elems r ?h = fam_elems r h" using d le by (rule fam_elems_append)
  have ne: "get ?c \<noteq> get r"
    using deref_less [OF d] d by (auto simp: get_def deref_def split: option.splits)
  have wr: "\<exists>h''. write_at (fam_begin False ?c) i x ?h = Inr h''
                   \<and> fam_elems r h'' = fam_elems r h
                   \<and> fam_elems ?c h'' = Inr (?xs[i := x])" if "i < ?n" for i x
  proof -
    let ?nb' = "?nb\<lparr>trailing := (trailing ?nb)[i := x]\<rparr>"
    let ?h' = "h\<lparr>blocks := blocks h @ [Some ?nb'], avail := v\<rparr>"
    have "i < length (trailing ?nb)" using that cap len by simp
    then have w: "write_at (fam_begin False ?c) i x ?h = Inr ?h'"
      by (rule write_new_block)
    have r': "fam_elems r ?h' = fam_elems r h" using d le by (rule fam_elems_append)
    have dc': "deref ?c ?h' = Inr (length (blocks h), ?nb')" by (rule deref_new)
    have "take ?n ((?xs @ drop ?n (trailing nb))[i := x]) = ?xs[i := x]"
      using that len by (simp add: list_update_append)
    then have "fam_elems ?c ?h' = Inr (?xs[i := x])"
      using fam_elems_take [OF dc'] cnt cap len by simp
    with w r' show ?thesis by blast
  qed
  show ?thesis
  proof (rule exI [of _ ?c], rule exI [of _ ?h], intro conjI allI impI)
    show "fam_copy ctor r h = Inr (?c, ?h)" by (rule cp)
    show "fam_elems r h = Inr ?xs" by (rule er)
    show "fam_elems ?c ?h = fam_elems r h" using ec er by simp
    show "fam_size ?c ?h = fam_size r h" by (rule sz)
    show "fam_size r h = Inr (hdr_count b)" by (rule sz)
    show "alloc_bytes ?c ?h = Inr (nbytes nb)" by (rule ab)
    show "deref ?c ?h = Inr (length (blocks h), ?nb)" by (rule dc)
    show "fam_elems r ?h = fam_elems r h" by (rule er')
    show "get ?c \<noteq> get r" by (rule ne)
    show "\<exists>h''. write_at (fam_begin False ?c) i x ?h = Inr h''
                   \<and> fam_elems r h'' = fam_elems r h
                   \<and> fam_elems ?c h'' = Inr (?xs[i := x])" if "i < ?n" for i x
      using that by (rule wr)
  qed
qed

lemma MsrList_copy_deep:
  assumes "deref r h = Inr (a, b)" "unat (hdr_count b) \<le> length (trailing b)"
    and "8 + 16 * unat (hdr_count b) \<le> avail h"
  shows "\<exists>c h'. MsrList_copy r h = Inr (c, h')
          \<and> MsrList_elems r h = Inr (take (unat (hdr_count b)) (trailing b))
          \<and> MsrList_elems c h' = MsrList_elems r h
          \<and> MsrList_size c h' = MsrList_size r h
          \<and> MsrList_size r h = Inr (hdr_count b)
          \<and> alloc_bytes c h' = Inr (8 + 16 * unat (hdr_count b))
          \<and> deref c h' = Inr (length (blocks h),
                \<lparr>nbytes = 8 + 16 * unat (hdr_count b), hdr_count = hdr_count b, hdr_pad = 0,
                 trailing = take (unat (hdr_count b)) (trailing b)\<rparr>)
          \<and> MsrList_elems r h' = MsrList_elems r h
          \<and> get c \<noteq> get r
          \<and> (\<forall>i x. i < unat (hdr_count b) \<longrightarrow>
                (\<exists>h''. write_at (MsrList_begin c) i x h' = Inr h''
                   \<and> MsrList_elems r h'' = MsrList_elems r h
                   \<and> MsrList_elems c h'' = Inr ((take (unat (hdr_count b)) (trailing b))[i := x])))"
proof -
  let ?n = "of_nat (unat (hdr_count b)) :: 64 word"
  let ?nb = "\<lparr>nbytes = 8 + 16 * unat (hdr_count b), hdr_count = hdr_count b, hdr_pad = 0,
              trailing = replicate (unat (hdr_count b)) zero_msr_entry\<rparr>"
  have u: "unat ?n = unat (hdr_count b)" by (simp add: unat_ucast32)
  have "unat ?n < 2 ^ 63" using unat32_lt [of "hdr_count b"] u by simp
  then have c: "MsrList_n ?n h =
      Inr (\<lparr>ptr = Some (length (blocks h))\<rparr>,
           h\<lparr>blocks := blocks h @ [Some ?nb], avail := avail h - (8 + 16 * unat (hdr_count b))\<rparr>)"
    using MsrList_n_ok [of ?n h] assms(3) u by (simp add: ucast_ucast32)
  show ?thesis
    using fam_copy_deep [where ctor = MsrList_n and nb = ?nb, OF assms(1,2) c]
    by (simp add: MsrList_copy_def MsrList_elems_def MsrList_size_def MsrList_begin_def)
qed

lemma CpuidList_copy_deep:
  assumes "deref r h = Inr (a, b)" "unat (hdr_count b) \<le> length (trailing b)"
    and "8 + 160 * unat (hdr_count b) \<le> avail h"
  shows "\<exists>c h'. CpuidList_copy r h = Inr (c, h')
          \<and> CpuidList_elems r h = Inr (take (unat (hdr_count b)) (trailing b))
          \<and> CpuidList_elems c h' = CpuidList_elems r h
          \<and> CpuidList_size c h' = CpuidList_size r h
          \<and> CpuidList_size r h = Inr (hdr_count b)
          \<and> alloc_bytes c h' = Inr (8 + 160 * unat (hdr_count b))
          \<and> deref c h' = Inr (length (blocks h),
                \<lparr>nbytes = 8 + 160 * unat (hdr_count b), hdr_count = hdr_count b, hdr_pad = 0,
                 trailing = take (unat (hdr_count b)) (trailing b)
                   @ replicate (3 * unat (hdr_count b)) zero_cpuid_entry\<rparr>)
          \<and> CpuidList_elems r h' = CpuidList_elems r h
          \<and> get c \<noteq> get r
          \<and> (\<forall>i x. i < unat (hdr_count b) \<longrightarrow>
                (\<exists>h''. write_at (CpuidList_begin c) i x h' = Inr h''
                   \<and> CpuidList_elems r h'' = CpuidList_elems r h
                   \<and> CpuidList_elems c h'' = Inr ((take (unat (hdr_count b)) (trailing b))[i := x])))"
proof -
  let ?nb = "\<lparr>nbytes = 8 + 160 * unat (hdr_count b), hdr_count = hdr_count b, hdr_pad = 0,
              trailing = replicate (4 * unat (hdr_count b)) zero_cpuid_entry\<rparr>"
  have c: "(\<lambda>d :: 64 word. CpuidList_n (ucast d)) (of_nat (unat (hdr_count b))) h =
      Inr (\<lparr>ptr = Some (length (blocks h))\<rparr>,
           h\<lparr>blocks := blocks h @ [Some ?nb], avail := avail h - (8 + 160 * unat (hdr_count b))\<rparr>)"
    using CpuidList_n_ok [of "hdr_count b" h] assms(3) by (simp add: ucast_ucast32)
  show ?thesis
    using fam_copy_deep [where ctor = "\<lambda>d. CpuidList_n (ucast d)" and nb = ?nb,
        OF assms(1,2) c]
    by (simp add: CpuidList_copy_def CpuidList_elems_def CpuidList_size_def CpuidList_begin_def)
qed

lemma IrqRoutingList_one_bytes:
  "after (IrqRoutingList_n ub z 1 h) alloc_bytes = Inr m \<Longrightarrow> m = ub * 25"
proof -
  have u: "unat (ucast (1 :: 32 word) * of_nat (sizeof_kvm_irq_routing_entry div 2) + 1 :: 64 word)
      = 25"
    by (simp add: sizeof_kvm_irq_routing_entry_def)
  assume a: "after (IrqRoutingList_n ub z 1 h) alloc_bytes = Inr m"
  show ?thesis
  proof (cases "avail h < ub * 25")
    case True
    then have "IrqRoutingList_n ub z 1 h = Inl BadAlloc"
      using fam_ctor_fail [of h ub
          "ucast (1 :: 32 word) * of_nat (sizeof_kvm_irq_routing_entry div 2) + 1"] u
      by (simp add: IrqRoutingList_n_def)
    with a show ?thesis by (simp add: after_def)
  next
    case False
    show ?thesis
    proof (cases "sizeof_kvm_irq_routing \<le> ub * 25")
      case True
      with False have "IrqRoutingList_n ub z 1 h =
        Inr (\<lparr>ptr = Some (length (blocks h))\<rparr>,
          h\<lparr>blocks := blocks h @
                [Some \<lparr>nbytes = ub * 25, hdr_count = 1, hdr_pad = 0,
                       trailing = replicate ((ub * 25 - sizeof_kvm_irq_routing)
                          div sizeof_kvm_irq_routing_entry) z\<rparr>],
            avail := avail h - ub * 25\<rparr>)"
        using fam_ctor_ok [of ub
          "ucast (1 :: 32 word) * of_nat (sizeof_kvm_irq_routing_entry div 2) + 1" h
          sizeof_kvm_irq_routing sizeof_kvm_irq_routing_entry z 1] u
        by (simp add: IrqRoutingList_n_def store_pad_def deref_def lookup_def)
      with a show ?thesis by (simp add: after_def alloc_bytes_def deref_def lookup_def)
    next
      case False
      then have "IrqRoutingList_n ub z 1 h = Inl Undefined"
        using \<open>\<not> avail h < ub * 25\<close> u
        by (simp add: IrqRoutingList_n_def fam_ctor_def FamStruct_new_def store_count_def
            deref_def lookup_def Let_def)
      with a show ?thesis by (simp add: after_def)
    qed
  qed
qed

lemma MsrIndexList_elems_take:
  assumes "deref l h = Inr (a, b)" "unat (hdr_count b) \<le> length (trailing b)"
  shows "MsrIndexList_elems l h = Inr (take (unat (hdr_count b)) (trailing b))"
proof -
  from assms(1) have p: "ptr l = Some a"
    by (auto simp: deref_def split: option.splits)
  have "MsrIndexList_elems l h = fam_elems l h"
    using assms(1) p
    by (simp add: MsrIndexList_elems_def MsrIndexList_cbegin_def MsrIndexList_begin_const_def
        MsrIndexList_data_const_def MsrIndexList_cend_def MsrIndexList_end_const_def
        MsrIndexList_size_def fam_size_def fam_begin_def fam_elems_def fam_end_def ptr_add_def)
  then show ?thesis using fam_elems_take [OF assms] by simp
qed

subsection \<open>C1: the dispatch primitive\<close>

text \<open>
  C1.  For every descriptor, request code and argument: when the platform call's
  result is non-negative, \<open>ioctl\<close> returns it, as a non-negative integer of the
  same value; when it is negative, \<open>ioctl\<close> throws the system error carrying
  \<open>errno\<close>; and whatever \<open>ioctl\<close> returns as a value is the non-negative result
  of the platform call, so a negative result is never returned as a success.
\<close>

theorem ioctl_dispatch:
  assumes "k fd req arg s = ((ret, errno), s')"
  shows "(0 \<le> sint ret \<longrightarrow>
            (\<exists>r. ioctl k fd req arg s = (Inr r, s') \<and> uint r = sint ret))
       \<and> (sint ret < 0 \<longrightarrow> ioctl k fd req arg s = (Inl (SystemError errno), s'))
       \<and> (\<forall>r. fst (ioctl k fd req arg s) = Inr r \<longrightarrow> 0 \<le> sint ret \<and> uint r = sint ret)"
proof -
  have pos: "uint ret = sint ret" if "0 \<le> sint ret"
  proof -
    have "sint ret < 2 ^ 32" using sint_lt [of ret] by simp
    with that have "take_bit 32 (sint ret) = sint ret"
      by (simp add: take_bit_int_eq_self)
    then show ?thesis using uint_sint [of ret] by simp
  qed
  show ?thesis using assms pos by (auto simp: ioctl_def)
qed

theorem ioctl_dispatch_witness:
  "(\<exists>r. ioctl (\<lambda>fd req (arg :: int) (s :: nat). ((7, 0), Suc s)) 3 0xAE03 0 0 = (Inr r, 1)
        \<and> uint r = 7)
   \<and> ioctl (\<lambda>fd req (arg :: int) (s :: nat). ((- 1, 22), Suc s)) 3 0xAE03 0 0
        = (Inl (SystemError 22), 1)"
  using ioctl_dispatch [of "\<lambda>fd req (arg :: int) (s :: nat). ((7, 0), Suc s)" 3 "0xAE03" 0 0 7 0 1]
    ioctl_dispatch [of "\<lambda>fd req (arg :: int) (s :: nat). ((- 1, 22), Suc s)" 3 "0xAE03" 0 0 "- 1" 22 1]
  by simp

subsection \<open>C2: the sized constructors\<close>

text \<open>
  C2, at a count beyond the 32-bit count field.  \<open>MsrList(const size_t n)\<close> takes
  a \<open>size_t\<close> and stores it into the \<open>__u32\<close> field \<open>nmsrs\<close>.  With
  \<open>n = 2\<^sup>3\<^sup>2\<close> and a terabyte to allocate from, the constructor succeeds,
  \<open>size()\<close> returns 0 and the range from \<open>begin()\<close> to \<open>end()\<close> is empty.
\<close>

theorem MsrList_n_count_counterexample:
  "after (MsrList_n (2 ^ 32) \<lparr>blocks = [], avail = 2 ^ 40\<rparr>) MsrList_size = Inr 0
   \<and> after (MsrList_n (2 ^ 32) \<lparr>blocks = [], avail = 2 ^ 40\<rparr>) MsrList_elems = Inr []"
proof -
  have "MsrList_n (2 ^ 32) \<lparr>blocks = [], avail = 2 ^ 40\<rparr> =
     Inr (\<lparr>ptr = Some 0\<rparr>,
          \<lparr>blocks = [Some \<lparr>nbytes = 8 + 16 * 2 ^ 32, hdr_count = 0, hdr_pad = 0,
                       trailing = replicate (2 ^ 32) zero_msr_entry\<rparr>],
            avail = 2 ^ 40 - (8 + 16 * 2 ^ 32)\<rparr>)"
    using MsrList_n_ok [of "2 ^ 32" "\<lparr>blocks = [], avail = 2 ^ 40\<rparr>"] by simp
  then show ?thesis
    by (simp add: after_def MsrList_size_def fam_size_def MsrList_elems_def fam_elems_def
        fam_begin_def fam_end_def iterate_def deref_def lookup_def)
qed

text \<open>
  C2, amended.  For every count \<open>n < 2\<^sup>3\<^sup>2\<close>, \<open>MsrList(n)\<close> throws
  \<open>std::bad_alloc\<close> when fewer than \<open>8 + 16 n\<close> bytes can be allocated, and
  otherwise yields an object whose buffer is zero except for the count: the count
  field is \<open>n\<close>, the padding field is zero and the \<open>n\<close> entries are zero;
  \<open>size()\<close> returns \<open>n\<close>; the range from \<open>begin()\<close> to \<open>end()\<close> has exactly
  \<open>n\<close> elements, so it is empty (\<open>begin() = end()\<close>) for \<open>n = 0\<close>.
  \<open>CpuidList(const uint32_t m)\<close> does the same for every \<open>m\<close> of its parameter
  type, and \<open>MsrIndexList(const size_t p)\<close> for every \<open>p < 2\<^sup>3\<^sup>2\<close>.
\<close>

theorem sized_ctor_count:
  assumes "unat n < 2 ^ 32" and "unat p < 2 ^ 32"
  shows "(avail h < 8 + 16 * unat n \<longrightarrow> MsrList_n n h = Inl BadAlloc)
       \<and> (8 + 16 * unat n \<le> avail h \<longrightarrow>
            (\<exists>l h' a. MsrList_n n h = Inr (l, h')
               \<and> deref l h' = Inr (a, \<lparr>nbytes = 8 + 16 * unat n, hdr_count = ucast n,
                    hdr_pad = 0, trailing = replicate (unat n) zero_msr_entry\<rparr>)
               \<and> unat (ucast n :: 32 word) = unat n
               \<and> MsrList_size l h' = Inr (ucast n)
               \<and> MsrList_elems l h' = Inr (replicate (unat n) zero_msr_entry)
               \<and> MsrList_begin l = Inr (ElemPtr False a 0)
               \<and> MsrList_end l h' = Inr (ElemPtr False a (unat n))))
       \<and> (avail g < 8 + 160 * unat m \<longrightarrow> CpuidList_n m g = Inl BadAlloc)
       \<and> (8 + 160 * unat m \<le> avail g \<longrightarrow>
            (\<exists>l g' a. CpuidList_n m g = Inr (l, g')
               \<and> deref l g' = Inr (a, \<lparr>nbytes = 8 + 160 * unat m, hdr_count = m,
                    hdr_pad = 0, trailing = replicate (4 * unat m) zero_cpuid_entry\<rparr>)
               \<and> CpuidList_size l g' = Inr m
               \<and> CpuidList_elems l g' = Inr (replicate (unat m) zero_cpuid_entry)
               \<and> CpuidList_begin l = Inr (ElemPtr False a 0)
               \<and> CpuidList_end l g' = Inr (ElemPtr False a (unat m))))
       \<and> (avail q < 4 + 4 * unat p \<longrightarrow> MsrIndexList_n p q = Inl BadAlloc)
       \<and> (4 + 4 * unat p \<le> avail q \<longrightarrow>
            (\<exists>l q' a. MsrIndexList_n p q = Inr (l, q')
               \<and> deref l q' = Inr (a, \<lparr>nbytes = 4 + 4 * unat p, hdr_count = ucast p,
                    hdr_pad = 0, trailing = replicate (unat p) 0\<rparr>)
               \<and> unat (ucast p :: 32 word) = unat p
               \<and> MsrIndexList_size l q' = Inr (ucast p)
               \<and> MsrIndexList_elems l q' = Inr (replicate (unat p) 0)
               \<and> MsrIndexList_begin l = Inr (ElemPtr False a 0)
               \<and> MsrIndexList_end l q' = Inr (ElemPtr False a (unat p))))"
proof (intro conjI impI)
  assume "avail h < 8 + 16 * unat n"
  then show "MsrList_n n h = Inl BadAlloc"
    using assms by (intro MsrList_n_fail) simp_all
next
  assume mem: "8 + 16 * unat n \<le> avail h"
  let ?b = "\<lparr>nbytes = 8 + 16 * unat n, hdr_count = ucast n :: 32 word,
              hdr_pad = 0, trailing = replicate (unat n) zero_msr_entry\<rparr>"
  let ?l = "\<lparr>ptr = Some (length (blocks h))\<rparr>"
  let ?h = "h\<lparr>blocks := blocks h @ [Some ?b], avail := avail h - (8 + 16 * unat n)\<rparr>"
  have c: "MsrList_n n h = Inr (?l, ?h)"
    using assms mem by (intro MsrList_n_ok) simp_all
  have d: "deref ?l ?h = Inr (length (blocks h), ?b)" by (rule deref_new)
  have u: "unat (ucast n :: 32 word) = unat n"
    using assms by (simp add: unsigned_ucast_eq take_bit_nat_eq_self)
  have e: "MsrList_elems ?l ?h = Inr (replicate (unat n) zero_msr_entry)"
    unfolding MsrList_elems_def using fam_elems_take [OF d] u by simp
  have s: "MsrList_size ?l ?h = Inr (ucast n)"
    by (simp add: MsrList_size_def fam_size_def d)
  have b: "MsrList_begin ?l = Inr (ElemPtr False (length (blocks h)) 0)"
    by (simp add: MsrList_begin_def fam_begin_def)
  have en: "MsrList_end ?l ?h = Inr (ElemPtr False (length (blocks h)) (unat n))"
    by (simp add: MsrList_end_def fam_end_def d u)
  show "\<exists>l h' a. MsrList_n n h = Inr (l, h')
               \<and> deref l h' = Inr (a, \<lparr>nbytes = 8 + 16 * unat n, hdr_count = ucast n,
                    hdr_pad = 0, trailing = replicate (unat n) zero_msr_entry\<rparr>)
               \<and> unat (ucast n :: 32 word) = unat n
               \<and> MsrList_size l h' = Inr (ucast n)
               \<and> MsrList_elems l h' = Inr (replicate (unat n) zero_msr_entry)
               \<and> MsrList_begin l = Inr (ElemPtr False a 0)
               \<and> MsrList_end l h' = Inr (ElemPtr False a (unat n))"
    using c d u e s b en by blast
next
  assume "avail g < 8 + 160 * unat m"
  then show "CpuidList_n m g = Inl BadAlloc" by (rule CpuidList_n_fail)
next
  assume mem: "8 + 160 * unat m \<le> avail g"
  let ?b = "\<lparr>nbytes = 8 + 160 * unat m, hdr_count = m,
              hdr_pad = 0, trailing = replicate (4 * unat m) zero_cpuid_entry\<rparr>"
  let ?l = "\<lparr>ptr = Some (length (blocks g))\<rparr>"
  let ?g = "g\<lparr>blocks := blocks g @ [Some ?b], avail := avail g - (8 + 160 * unat m)\<rparr>"
  have c: "CpuidList_n m g = Inr (?l, ?g)"
    using mem by (rule CpuidList_n_ok)
  have d: "deref ?l ?g = Inr (length (blocks g), ?b)" by (rule deref_new)
  have e: "CpuidList_elems ?l ?g = Inr (replicate (unat m) zero_cpuid_entry)"
    unfolding CpuidList_elems_def using fam_elems_take [OF d] by (simp add: min_def)
  have s: "CpuidList_size ?l ?g = Inr m"
    by (simp add: CpuidList_size_def fam_size_def d)
  have b: "CpuidList_begin ?l = Inr (ElemPtr False (length (blocks g)) 0)"
    by (simp add: CpuidList_begin_def fam_begin_def)
  have en: "CpuidList_end ?l ?g = Inr (ElemPtr False (length (blocks g)) (unat m))"
    by (simp add: CpuidList_end_def fam_end_def d)
  show "\<exists>l g' a. CpuidList_n m g = Inr (l, g')
               \<and> deref l g' = Inr (a, \<lparr>nbytes = 8 + 160 * unat m, hdr_count = m,
                    hdr_pad = 0, trailing = replicate (4 * unat m) zero_cpuid_entry\<rparr>)
               \<and> CpuidList_size l g' = Inr m
               \<and> CpuidList_elems l g' = Inr (replicate (unat m) zero_cpuid_entry)
               \<and> CpuidList_begin l = Inr (ElemPtr False a 0)
               \<and> CpuidList_end l g' = Inr (ElemPtr False a (unat m))"
    using c d e s b en by blast
next
  assume "avail q < 4 + 4 * unat p"
  then show "MsrIndexList_n p q = Inl BadAlloc"
    using assms(2) by (intro MsrIndexList_n_fail) simp_all
next
  assume mem: "4 + 4 * unat p \<le> avail q"
  let ?b = "\<lparr>nbytes = 4 + 4 * unat p, hdr_count = ucast p :: 32 word,
              hdr_pad = 0, trailing = replicate (unat p) (0 :: 32 word)\<rparr>"
  let ?l = "\<lparr>ptr = Some (length (blocks q))\<rparr>"
  let ?q = "q\<lparr>blocks := blocks q @ [Some ?b], avail := avail q - (4 + 4 * unat p)\<rparr>"
  have c: "MsrIndexList_n p q = Inr (?l, ?q)"
    using assms(2) mem by (intro MsrIndexList_n_ok) simp_all
  have d: "deref ?l ?q = Inr (length (blocks q), ?b)" by (rule deref_new)
  have u: "unat (ucast p :: 32 word) = unat p"
    using assms(2) by (simp add: unsigned_ucast_eq take_bit_nat_eq_self)
  have e: "MsrIndexList_elems ?l ?q = Inr (replicate (unat p) 0)"
    using MsrIndexList_elems_take [OF d] u by simp
  have s: "MsrIndexList_size ?l ?q = Inr (ucast p)"
    by (simp add: MsrIndexList_size_def fam_size_def d)
  have b: "MsrIndexList_begin ?l = Inr (ElemPtr False (length (blocks q)) 0)"
    by (simp add: MsrIndexList_begin_def MsrIndexList_data_def fam_begin_def)
  have en: "MsrIndexList_end ?l ?q = Inr (ElemPtr False (length (blocks q)) (unat p))"
    by (simp add: MsrIndexList_end_def MsrIndexList_data_def fam_begin_def s ptr_add_def u)
  show "\<exists>l q' a. MsrIndexList_n p q = Inr (l, q')
               \<and> deref l q' = Inr (a, \<lparr>nbytes = 4 + 4 * unat p, hdr_count = ucast p,
                    hdr_pad = 0, trailing = replicate (unat p) 0\<rparr>)
               \<and> unat (ucast p :: 32 word) = unat p
               \<and> MsrIndexList_size l q' = Inr (ucast p)
               \<and> MsrIndexList_elems l q' = Inr (replicate (unat p) 0)
               \<and> MsrIndexList_begin l = Inr (ElemPtr False a 0)
               \<and> MsrIndexList_end l q' = Inr (ElemPtr False a (unat p))"
    using c d u e s b en by blast
qed

theorem sized_ctor_count_witness:
  "after (MsrList_n 2 \<lparr>blocks = [], avail = 1000\<rparr>) MsrList_size = Inr 2
   \<and> after (MsrList_n 2 \<lparr>blocks = [], avail = 1000\<rparr>) MsrList_elems
       = Inr [zero_msr_entry, zero_msr_entry]
   \<and> after (MsrList_n 0 \<lparr>blocks = [], avail = 1000\<rparr>) MsrList_elems = Inr []
   \<and> after (MsrList_n 0 \<lparr>blocks = [], avail = 1000\<rparr>) MsrList_end
       = after (MsrList_n 0 \<lparr>blocks = [], avail = 1000\<rparr>) (\<lambda>l h. MsrList_begin l)
   \<and> MsrList_n 2 \<lparr>blocks = [], avail = 39\<rparr> = Inl BadAlloc
   \<and> after (CpuidList_n 1 \<lparr>blocks = [], avail = 1000\<rparr>) CpuidList_elems
       = Inr [zero_cpuid_entry]
   \<and> after (MsrIndexList_n 2 \<lparr>blocks = [], avail = 1000\<rparr>) MsrIndexList_elems = Inr [0, 0]
   \<and> after (MsrIndexList_n 2 \<lparr>blocks = [], avail = 1000\<rparr>) MsrIndexList_size = Inr 2"
proof -
  have r2: "replicate 2 x = [x, x]" for x :: 'a
    by (simp add: numeral_2_eq_2)
  show ?thesis
    using sized_ctor_count [of 2 2 "\<lparr>blocks = [], avail = 1000\<rparr>"
        "\<lparr>blocks = [], avail = 1000\<rparr>" 1 "\<lparr>blocks = [], avail = 1000\<rparr>"]
      sized_ctor_count [of 0 2 "\<lparr>blocks = [], avail = 1000\<rparr>"
        "\<lparr>blocks = [], avail = 1000\<rparr>" 1 "\<lparr>blocks = [], avail = 1000\<rparr>"]
      sized_ctor_count [of 2 2 "\<lparr>blocks = [], avail = 39\<rparr>"
        "\<lparr>blocks = [], avail = 1000\<rparr>" 1 "\<lparr>blocks = [], avail = 1000\<rparr>"]
    by (clarsimp simp: after_def r2)
qed

subsection \<open>C3: the size of the allocation\<close>

text \<open>
  C3 at one element.  \<open>MsrList(1)\<close> allocates the 24 bytes of the header and
  one entry.  \<open>CpuidList(1)\<close> allocates \<open>1 * sizeof(kvm_cpuid_entry2) + 2\<close> elements
  of \<open>uint32_t\<close>, 168 bytes, where the header and one entry take 48.
  \<open>IrqRoutingList(1)\<close> allocates 25 elements of its buffer type, 200 bytes over
  \<open>uint64_t\<close>, where the header and one entry take 56; over no buffer type is
  the allocation 56 bytes.
\<close>

theorem cpuid_irq_allocation_sizes:
  "after (MsrList_n 1 \<lparr>blocks = [], avail = 1000\<rparr>) alloc_bytes = Inr 24
   \<and> sizeof_kvm_msrs + 1 * sizeof_kvm_msr_entry = 24
   \<and> after (CpuidList_n 1 \<lparr>blocks = [], avail = 1000\<rparr>) alloc_bytes = Inr 168
   \<and> sizeof_kvm_cpuid2 + 1 * sizeof_kvm_cpuid_entry2 = 48
   \<and> after (IrqRoutingList_n sizeof_uint64 (0 :: nat) 1 \<lparr>blocks = [], avail = 1000\<rparr>) alloc_bytes
       = Inr 200
   \<and> sizeof_kvm_irq_routing + 1 * sizeof_kvm_irq_routing_entry = 56
   \<and> after (IrqRoutingList_n ub z 1 h) alloc_bytes
       \<noteq> Inr (sizeof_kvm_irq_routing + 1 * sizeof_kvm_irq_routing_entry)"
proof -
  have "after (IrqRoutingList_n ub z 1 h) alloc_bytes \<noteq> Inr 56"
  proof
    assume "after (IrqRoutingList_n ub z 1 h) alloc_bytes = Inr 56"
    then have "(56 :: nat) = ub * 25" by (rule IrqRoutingList_one_bytes)
    then have "(25 :: nat) dvd 56" by (metis dvd_triv_right)
    then show False by simp
  qed
  then show ?thesis
    by (simp add: after_def alloc_bytes_def CpuidList_n_def IrqRoutingList_n_def MsrList_n_def
      fam_ctor_def FamStruct_new_def store_count_def store_pad_def deref_def lookup_def
      sizeof_uint32_def sizeof_uint64_def sizeof_kvm_cpuid2_def sizeof_kvm_cpuid_entry2_def
      sizeof_kvm_irq_routing_def sizeof_kvm_irq_routing_entry_def sizeof_kvm_msrs_def
      sizeof_kvm_msr_entry_def)
qed

subsection \<open>C4: the size of a copy\<close>

text \<open>
  C4 at a list of one entry.  \<open>CpuidList{e}\<close> has \<open>size()\<close> 1, and its copy,
  made by \<open>CpuidList(other.begin(), other.end())\<close>, reads the one element
  \<open>e\<close>; the copy's buffer comes from \<open>CpuidList(1)\<close> and is 168 bytes, where
  the header and one entry take 48.  The copy of an \<open>MsrList\<close> of one entry is
  24 bytes, which is its header and one entry.
\<close>

theorem cpuid_copy_allocation_size:
  "after (CpuidList_entry (zero_cpuid_entry\<lparr>eax := 1\<rparr>) \<lparr>blocks = [], avail = 1000\<rparr>)
      CpuidList_size = Inr 1
   \<and> after (after (CpuidList_entry (zero_cpuid_entry\<lparr>eax := 1\<rparr>) \<lparr>blocks = [], avail = 1000\<rparr>)
        CpuidList_copy) CpuidList_elems = Inr [zero_cpuid_entry\<lparr>eax := 1\<rparr>]
   \<and> after (after (CpuidList_entry (zero_cpuid_entry\<lparr>eax := 1\<rparr>) \<lparr>blocks = [], avail = 1000\<rparr>)
        CpuidList_copy) alloc_bytes = Inr 168
   \<and> sizeof_kvm_cpuid2 + 1 * sizeof_kvm_cpuid_entry2 = 48
   \<and> after (after (MsrList_entry \<lparr>index = 0x174, reserved = 0, data = 0\<rparr>
          \<lparr>blocks = [], avail = 1000\<rparr>) MsrList_copy) alloc_bytes = Inr 24
   \<and> sizeof_kvm_msrs + 1 * sizeof_kvm_msr_entry = 24"
proof -
  let ?e = "zero_cpuid_entry\<lparr>eax := 1\<rparr>"
  let ?h0 = "\<lparr>blocks = [], avail = 1000\<rparr> :: kvm_cpuid_entry2 heap"
  let ?b = "\<lparr>nbytes = 168, hdr_count = 1, hdr_pad = 0,
             trailing = [?e, zero_cpuid_entry, zero_cpuid_entry, zero_cpuid_entry]\<rparr>"
  let ?h1 = "\<lparr>blocks = [Some ?b], avail = 832\<rparr>"
  have r4: "replicate 4 x = [x, x, x, x]" for x :: 'a
    by (simp add: numeral_eq_Suc)
  have n: "CpuidList_n 1 ?h0 =
      Inr (\<lparr>ptr = Some 0\<rparr>,
           \<lparr>blocks = [Some \<lparr>nbytes = 168, hdr_count = 1, hdr_pad = 0,
                         trailing = replicate 4 zero_cpuid_entry\<rparr>], avail = 832\<rparr>)"
    using CpuidList_n_ok [of 1 ?h0] by simp
  have e: "CpuidList_entry ?e ?h0 = Inr (\<lparr>ptr = Some 0\<rparr>, ?h1)"
    using n by (simp add: CpuidList_entry_def fam_single_def fam_begin_def ptr_store_def
        lookup_def r4)
  have d: "deref \<lparr>ptr = Some 0\<rparr> ?h1 = Inr (0, ?b)" by (simp add: deref_def lookup_def)
  have 1: "unat (hdr_count ?b) \<le> length (trailing ?b)" by simp
  have 2: "8 + 160 * unat (hdr_count ?b) \<le> avail ?h1" by simp
  from CpuidList_copy_deep [OF d 1 2] obtain c h' where c:
    "CpuidList_copy \<lparr>ptr = Some 0\<rparr> ?h1 = Inr (c, h')"
    "CpuidList_elems \<lparr>ptr = Some 0\<rparr> ?h1 = Inr (take (unat (hdr_count ?b)) (trailing ?b))"
    "CpuidList_elems c h' = CpuidList_elems \<lparr>ptr = Some 0\<rparr> ?h1"
    "alloc_bytes c h' = Inr (8 + 160 * unat (hdr_count ?b))"
    by blast
  have s: "after (CpuidList_entry ?e ?h0) CpuidList_size = Inr 1"
    using e d by (simp add: after_def CpuidList_size_def fam_size_def)
  have ce: "after (after (CpuidList_entry ?e ?h0) CpuidList_copy) CpuidList_elems = Inr [?e]"
    using e c by (simp add: after_def)
  have cb: "after (after (CpuidList_entry ?e ?h0) CpuidList_copy) alloc_bytes = Inr 168"
    using e c by (simp add: after_def)
  let ?m = "\<lparr>index = 0x174, reserved = 0, data = 0\<rparr>"
  let ?g0 = "\<lparr>blocks = [], avail = 1000\<rparr> :: kvm_msr_entry heap"
  let ?mb = "\<lparr>nbytes = 24, hdr_count = 1, hdr_pad = 0, trailing = [?m]\<rparr>"
  let ?g1 = "\<lparr>blocks = [Some ?mb], avail = 976\<rparr>"
  have mn: "MsrList_n 1 ?g0 =
      Inr (\<lparr>ptr = Some 0\<rparr>,
           \<lparr>blocks = [Some \<lparr>nbytes = 24, hdr_count = 1, hdr_pad = 0,
                         trailing = replicate 1 zero_msr_entry\<rparr>], avail = 976\<rparr>)"
    using MsrList_n_ok [of 1 ?g0] by simp
  have me: "MsrList_entry ?m ?g0 = Inr (\<lparr>ptr = Some 0\<rparr>, ?g1)"
    using mn by (simp add: MsrList_entry_def fam_single_def fam_begin_def ptr_store_def
        lookup_def)
  have md: "deref \<lparr>ptr = Some 0\<rparr> ?g1 = Inr (0, ?mb)" by (simp add: deref_def lookup_def)
  have m1: "unat (hdr_count ?mb) \<le> length (trailing ?mb)" by simp
  have m2: "8 + 16 * unat (hdr_count ?mb) \<le> avail ?g1" by simp
  from MsrList_copy_deep [OF md m1 m2] obtain mc g' where mc:
    "MsrList_copy \<lparr>ptr = Some 0\<rparr> ?g1 = Inr (mc, g')"
    "alloc_bytes mc g' = Inr (8 + 16 * unat (hdr_count ?mb))"
    by blast
  have mb: "after (after (MsrList_entry ?m ?g0) MsrList_copy) alloc_bytes = Inr 24"
    using me mc by (simp add: after_def)
  show ?thesis
    using s ce cb mb
    by (simp add: sizeof_kvm_cpuid2_def sizeof_kvm_cpuid_entry2_def sizeof_kvm_msrs_def
        sizeof_kvm_msr_entry_def)
qed

subsection \<open>C5: release and teardown of the root handle\<close>

text \<open>
  C5, on a platform close that counts its calls.  Two calls of \<open>close()\<close> issue
  the platform close twice.  A \<open>close()\<close> whose platform call fails throws the
  system error and leaves \<open>closed_\<close> unset, so that the destructor that follows
  issues the platform close a second time: \<open>close()\<close> does not test
  \<open>closed_\<close>, and sets it only after \<open>utils::close\<close> has returned.  After a
  \<open>close()\<close> that succeeds the destructor, which tests \<open>closed_\<close>, issues no
  call: the platform close has run once.
\<close>

theorem close_issued_twice:
  "close_twice (\<lambda>d n. ((0, 0), Suc n)) \<lparr>system_fd = 3, system_closed = False\<rparr> (0 :: nat)
     = (Inr (), \<lparr>system_fd = 3, system_closed = True\<rparr>, 2)
   \<and> system_close (\<lambda>d n. ((- 1, 5), Suc n)) \<lparr>system_fd = 3, system_closed = False\<rparr> (0 :: nat)
     = (Inl (SystemError 5), \<lparr>system_fd = 3, system_closed = False\<rparr>, 1)
   \<and> close_then_dtor (\<lambda>d n. ((- 1, 5), Suc n)) \<lparr>system_fd = 3, system_closed = False\<rparr> (0 :: nat)
     = (Inr (), 2)
   \<and> close_then_dtor (\<lambda>d n. ((0, 0), Suc n)) \<lparr>system_fd = 3, system_closed = False\<rparr> (0 :: nat)
     = (Inr (), 1)"
  by (simp add: close_twice_def close_then_dtor_def system_close_def system_dtor_def
      utils_close_def)

subsection \<open>C6: the range constructors\<close>

text \<open>
  C6, at a range longer than the count field can say.  A range of
  \<open>2\<^sup>3\<^sup>2\<close> entries is copied into the buffer whole, but the count stored is
  \<open>2\<^sup>3\<^sup>2\<close> converted to \<open>__u32\<close>: \<open>size()\<close> returns 0 and iterating the
  new \<open>MsrList\<close> yields nothing.
\<close>

theorem range_ctor_count_counterexample:
  "after (MsrList_range (replicate (2 ^ 32) zero_msr_entry) \<lparr>blocks = [], avail = 2 ^ 40\<rparr>)
      MsrList_size = Inr 0
   \<and> after (MsrList_range (replicate (2 ^ 32) zero_msr_entry) \<lparr>blocks = [], avail = 2 ^ 40\<rparr>)
      MsrList_elems = Inr []"
proof -
  have "MsrList_range (replicate (2 ^ 32) zero_msr_entry) \<lparr>blocks = [], avail = 2 ^ 40\<rparr> =
     Inr (\<lparr>ptr = Some 0\<rparr>,
          \<lparr>blocks = [Some \<lparr>nbytes = 8 + 16 * 2 ^ 32, hdr_count = 0, hdr_pad = 0,
                       trailing = replicate (2 ^ 32) zero_msr_entry\<rparr>],
            avail = 2 ^ 40 - (8 + 16 * 2 ^ 32)\<rparr>)"
    using MsrList_range_ok [of "replicate (2 ^ 32) zero_msr_entry"
        "\<lparr>blocks = [], avail = 2 ^ 40\<rparr>"] by simp
  then show ?thesis
    by (simp add: after_def MsrList_size_def fam_size_def MsrList_elems_def fam_elems_def
        fam_begin_def fam_end_def iterate_def deref_def lookup_def)
qed

text \<open>
  C6, amended.  For every input sequence of fewer than \<open>2\<^sup>3\<^sup>2\<close> elements
  (and an allocator with room for the buffer), the range constructor of
  \<open>MsrList\<close> and of \<open>CpuidList\<close> returns an object whose count is the length of
  the sequence, whose trailing array starts with the elements of the sequence,
  unchanged and in order, and whose iteration yields exactly the sequence.
\<close>

theorem range_ctor_copies_in_order:
  assumes "length xs < 2 ^ 32" "8 + 16 * length xs \<le> avail h"
    and "length ys < 2 ^ 32" "8 + 160 * length ys \<le> avail g"
  shows "(\<exists>l h' a b. MsrList_range xs h = Inr (l, h')
            \<and> deref l h' = Inr (a, b) \<and> unat (hdr_count b) = length xs \<and> trailing b = xs
            \<and> MsrList_size l h' = Inr (hdr_count b)
            \<and> MsrList_elems l h' = Inr xs)
       \<and> (\<exists>l g' a b. CpuidList_range ys g = Inr (l, g')
            \<and> deref l g' = Inr (a, b) \<and> unat (hdr_count b) = length ys
            \<and> take (length ys) (trailing b) = ys
            \<and> CpuidList_size l g' = Inr (hdr_count b)
            \<and> CpuidList_elems l g' = Inr ys)"
proof
  let ?b = "\<lparr>nbytes = 8 + 16 * length xs, hdr_count = ucast (of_nat (length xs) :: 64 word),
             hdr_pad = 0, trailing = xs\<rparr>"
  let ?l = "\<lparr>ptr = Some (length (blocks h))\<rparr>"
  let ?h = "h\<lparr>blocks := blocks h @ [Some ?b], avail := avail h - (8 + 16 * length xs)\<rparr>"
  have r: "MsrList_range xs h = Inr (?l, ?h)"
    using assms(1,2) by (intro MsrList_range_ok) simp_all
  have d: "deref ?l ?h = Inr (length (blocks h), ?b)" by (rule deref_new)
  have "length xs < 2 ^ 64" using assms(1) by simp
  then have u: "unat (hdr_count ?b) = length xs"
    using assms(1) by (simp add: unsigned_ucast_eq unat_of_nat take_bit_nat_eq_self)
  have e: "MsrList_elems ?l ?h = Inr xs"
    unfolding MsrList_elems_def using fam_elems_take [OF d] u by simp
  have s: "MsrList_size ?l ?h = Inr (hdr_count ?b)"
    by (simp add: MsrList_size_def fam_size_def d)
  show "\<exists>l h' a b. MsrList_range xs h = Inr (l, h')
            \<and> deref l h' = Inr (a, b) \<and> unat (hdr_count b) = length xs \<and> trailing b = xs
            \<and> MsrList_size l h' = Inr (hdr_count b)
            \<and> MsrList_elems l h' = Inr xs"
    using r d u e s by (intro exI [of _ ?l] exI [of _ ?h] exI [of _ "length (blocks h)"]
        exI [of _ ?b]) simp
next
  let ?b = "\<lparr>nbytes = 8 + 160 * length ys, hdr_count = of_nat (length ys) :: 32 word,
             hdr_pad = 0, trailing = ys @ replicate (3 * length ys) zero_cpuid_entry\<rparr>"
  let ?l = "\<lparr>ptr = Some (length (blocks g))\<rparr>"
  let ?g = "g\<lparr>blocks := blocks g @ [Some ?b], avail := avail g - (8 + 160 * length ys)\<rparr>"
  have r: "CpuidList_range ys g = Inr (?l, ?g)"
    using assms(3,4) by (intro CpuidList_range_ok) simp_all
  have d: "deref ?l ?g = Inr (length (blocks g), ?b)" by (rule deref_new)
  have u: "unat (hdr_count ?b) = length ys"
    using assms(3) by (simp add: unat_of_nat)
  have e: "CpuidList_elems ?l ?g = Inr ys"
    unfolding CpuidList_elems_def using fam_elems_take [OF d] u by simp
  have s: "CpuidList_size ?l ?g = Inr (hdr_count ?b)"
    by (simp add: CpuidList_size_def fam_size_def d)
  show "\<exists>l g' a b. CpuidList_range ys g = Inr (l, g')
            \<and> deref l g' = Inr (a, b) \<and> unat (hdr_count b) = length ys
            \<and> take (length ys) (trailing b) = ys
            \<and> CpuidList_size l g' = Inr (hdr_count b)
            \<and> CpuidList_elems l g' = Inr ys"
    using r d u e s by (intro exI [of _ ?l] exI [of _ ?g] exI [of _ "length (blocks g)"]
        exI [of _ ?b]) simp
qed

theorem range_ctor_copies_in_order_witness:
  "after (MsrList_range [\<lparr>index = 0x174, reserved = 0, data = 0\<rparr>,
                         \<lparr>index = 0x175, reserved = 0, data = 1\<rparr>]
            \<lparr>blocks = [], avail = 1000\<rparr>) MsrList_elems
     = Inr [\<lparr>index = 0x174, reserved = 0, data = 0\<rparr>, \<lparr>index = 0x175, reserved = 0, data = 1\<rparr>]
   \<and> after (CpuidList_range [zero_cpuid_entry\<lparr>eax := 1\<rparr>, zero_cpuid_entry]
            \<lparr>blocks = [], avail = 1000\<rparr>) CpuidList_elems
     = Inr [zero_cpuid_entry\<lparr>eax := 1\<rparr>, zero_cpuid_entry]"
  using range_ctor_copies_in_order [of
      "[\<lparr>index = 0x174, reserved = 0, data = 0\<rparr>, \<lparr>index = 0x175, reserved = 0, data = 1\<rparr>]"
      "\<lparr>blocks = [], avail = 1000\<rparr>"
      "[zero_cpuid_entry\<lparr>eax := 1\<rparr>, zero_cpuid_entry]"
      "\<lparr>blocks = [], avail = 1000\<rparr>"]
  by (auto simp: after_def)

subsection \<open>C7: moves transfer the buffer\<close>

text \<open>
  C7.  Let \<open>b\<close> be a live \<open>MsrList\<close> whose count does not exceed what its buffer
  holds.  The object move-constructed from \<open>b\<close> has the elements and the
  \<open>size()\<close> that \<open>b\<close> had and holds the pointer \<open>b\<close> held; \<open>b\<close> is left
  with a null pointer, so \<open>size()\<close>, \<open>begin()\<close> and iteration on it are undefined,
  while destroying it is safe and deletes nothing; the store is not touched, so
  the buffer is not duplicated.  Move assignment \<open>t = std::move(b)\<close> to a live
  \<open>t\<close> with a buffer of its own does the same for \<open>t\<close> and deletes the buffer
  \<open>t\<close> held before; no block is allocated.
\<close>

theorem move_transfers_ownership:
  assumes "deref b h = Inr (a, blk)" "unat (hdr_count blk) \<le> length (trailing blk)"
    and "deref t h = Inr (a0, blk0)" "a0 \<noteq> a"
  shows "MsrList_elems b h = Inr (take (unat (hdr_count blk)) (trailing blk))
       \<and> MsrList_elems (fst (MsrList_move b)) h = Inr (take (unat (hdr_count blk)) (trailing blk))
       \<and> MsrList_size (fst (MsrList_move b)) h = Inr (hdr_count blk)
       \<and> get (fst (MsrList_move b)) = Some a
       \<and> get (snd (MsrList_move b)) = None
       \<and> MsrList_size (snd (MsrList_move b)) h = Inl Undefined
       \<and> MsrList_begin (snd (MsrList_move b)) = Inl Undefined
       \<and> MsrList_elems (snd (MsrList_move b)) h = Inl Undefined
       \<and> MsrList_dtor (snd (MsrList_move b)) h = Inr h
       \<and> (\<exists>t' b' h'. MsrList_move_assign t b h = Inr (t', b', h')
            \<and> MsrList_elems t' h' = Inr (take (unat (hdr_count blk)) (trailing blk))
            \<and> MsrList_size t' h' = Inr (hdr_count blk)
            \<and> get t' = Some a
            \<and> get b' = None
            \<and> MsrList_elems b' h' = Inl Undefined
            \<and> lookup h' a = Some blk
            \<and> lookup h' a0 = None
            \<and> length (blocks h') = length (blocks h)
            \<and> avail h' = avail h + nbytes blk0)"
proof -
  from assms(1) have pb: "ptr b = Some a" and lb: "lookup h a = Some blk"
    by (auto simp: deref_def split: option.splits)
  from assms(3) have pt: "ptr t = Some a0" and lt: "lookup h a0 = Some blk0"
    by (auto simp: deref_def split: option.splits)
  have la: "a < length (blocks h)" and la0: "a0 < length (blocks h)"
    using lb lt by (auto dest: lookup_SomeD)
  let ?d = "fst (MsrList_move b)" and ?s = "snd (MsrList_move b)"
  have pd: "ptr ?d = Some a" and ps: "ptr ?s = None"
    using pb by (simp_all add: MsrList_move_def fam_move_def)
  have dd: "deref ?d h = Inr (a, blk)" using pd lb by (simp add: deref_def)
  have ds: "deref ?s h = Inl Undefined" using ps by (simp add: deref_def)
  have 1: "MsrList_elems b h = Inr (take (unat (hdr_count blk)) (trailing blk))"
    unfolding MsrList_elems_def using assms(1,2) by (rule fam_elems_take)
  have 2: "MsrList_elems ?d h = Inr (take (unat (hdr_count blk)) (trailing blk))"
    unfolding MsrList_elems_def using dd assms(2) by (rule fam_elems_take)
  have 3: "MsrList_size ?d h = Inr (hdr_count blk)"
    using dd by (simp add: MsrList_size_def fam_size_def)
  have 4: "get ?d = Some a" "get ?s = None" using pd ps by (simp_all add: get_def)
  have 5: "MsrList_size ?s h = Inl Undefined" "MsrList_begin ?s = Inl Undefined"
    "MsrList_elems ?s h = Inl Undefined" "MsrList_dtor ?s h = Inr h"
    using ds ps
    by (simp_all add: MsrList_size_def fam_size_def MsrList_begin_def fam_begin_def
        MsrList_elems_def fam_elems_def MsrList_dtor_def fam_destroy_def)
  let ?t' = "t\<lparr>ptr := Some a\<rparr>"
  let ?h' = "h\<lparr>blocks := (blocks h)[a0 := None], avail := avail h + nbytes blk0\<rparr>"
  have ma: "MsrList_move_assign t b h = Inr (?t', ?s, ?h')"
    using pb pt lt
    by (simp add: MsrList_move_assign_def fam_move_assign_def MsrList_move_def fam_move_def
        fam_assign_def fam_destroy_def Let_def)
  have lk: "lookup ?h' a = Some blk" "lookup ?h' a0 = None"
    using lb la la0 assms(4) by (simp_all add: lookup_def)
  have dt: "deref ?t' ?h' = Inr (a, blk)" using lk by (simp add: deref_def)
  have 6: "MsrList_elems ?t' ?h' = Inr (take (unat (hdr_count blk)) (trailing blk))"
    unfolding MsrList_elems_def using dt assms(2) by (rule fam_elems_take)
  have 7: "MsrList_size ?t' ?h' = Inr (hdr_count blk)"
    using dt by (simp add: MsrList_size_def fam_size_def)
  have 8: "MsrList_elems ?s ?h' = Inl Undefined"
    using ps by (simp add: MsrList_elems_def fam_elems_def fam_begin_def)
  have "\<exists>t' b' h'. MsrList_move_assign t b h = Inr (t', b', h')
            \<and> MsrList_elems t' h' = Inr (take (unat (hdr_count blk)) (trailing blk))
            \<and> MsrList_size t' h' = Inr (hdr_count blk)
            \<and> get t' = Some a
            \<and> get b' = None
            \<and> MsrList_elems b' h' = Inl Undefined
            \<and> lookup h' a = Some blk
            \<and> lookup h' a0 = None
            \<and> length (blocks h') = length (blocks h)
            \<and> avail h' = avail h + nbytes blk0"
    using ma 6 7 8 4(2) lk
    by (intro exI [of _ ?t'] exI [of _ ?s] exI [of _ ?h']) (simp add: get_def)
  with 1 2 3 4 5 show ?thesis by blast
qed

theorem move_transfers_ownership_witness:
  "MsrList_elems (fst (MsrList_move \<lparr>ptr = Some 1\<rparr>))
      \<lparr>blocks = [Some \<lparr>nbytes = 24, hdr_count = 1, hdr_pad = 0, trailing = [zero_msr_entry]\<rparr>,
                  Some \<lparr>nbytes = 40, hdr_count = 2, hdr_pad = 0,
                        trailing = [\<lparr>index = 0x174, reserved = 0, data = 0\<rparr>,
                                    \<lparr>index = 0x175, reserved = 0, data = 1\<rparr>]\<rparr>],
        avail = 100\<rparr>
     = Inr [\<lparr>index = 0x174, reserved = 0, data = 0\<rparr>, \<lparr>index = 0x175, reserved = 0, data = 1\<rparr>]
   \<and> get (snd (MsrList_move \<lparr>ptr = Some 1\<rparr>)) = None
   \<and> (\<exists>t' b' h'. MsrList_move_assign \<lparr>ptr = Some 0\<rparr> \<lparr>ptr = Some 1\<rparr>
      \<lparr>blocks = [Some \<lparr>nbytes = 24, hdr_count = 1, hdr_pad = 0, trailing = [zero_msr_entry]\<rparr>,
                  Some \<lparr>nbytes = 40, hdr_count = 2, hdr_pad = 0,
                        trailing = [\<lparr>index = 0x174, reserved = 0, data = 0\<rparr>,
                                    \<lparr>index = 0x175, reserved = 0, data = 1\<rparr>]\<rparr>],
        avail = 100\<rparr> = Inr (t', b', h')
      \<and> MsrList_elems t' h'
          = Inr [\<lparr>index = 0x174, reserved = 0, data = 0\<rparr>, \<lparr>index = 0x175, reserved = 0, data = 1\<rparr>]
      \<and> get t' = Some 1 \<and> get b' = None \<and> lookup h' 0 = None \<and> avail h' = 124)"
proof -
  let ?b0 = "\<lparr>nbytes = 24, hdr_count = 1, hdr_pad = 0, trailing = [zero_msr_entry]\<rparr>"
  let ?b1 = "\<lparr>nbytes = 40, hdr_count = 2, hdr_pad = 0,
                        trailing = [\<lparr>index = 0x174, reserved = 0, data = 0\<rparr>,
                                    \<lparr>index = 0x175, reserved = 0, data = 1\<rparr>]\<rparr>"
  let ?h = "\<lparr>blocks = [Some ?b0, Some ?b1], avail = 100\<rparr>"
  have d1: "deref \<lparr>ptr = Some 1\<rparr> ?h = Inr (1, ?b1)" by (simp add: deref_def lookup_def)
  have d0: "deref \<lparr>ptr = Some 0\<rparr> ?h = Inr (0, ?b0)" by (simp add: deref_def lookup_def)
  have le: "unat (hdr_count ?b1) \<le> length (trailing ?b1)" by simp
  have ne: "(0 :: nat) \<noteq> 1" by simp
  note t = move_transfers_ownership [OF d1 le d0 ne]
  from t obtain t' b' h' where m:
    "MsrList_move_assign \<lparr>ptr = Some 0\<rparr> \<lparr>ptr = Some 1\<rparr> ?h = Inr (t', b', h')"
    "MsrList_elems t' h' = Inr (take (unat (hdr_count ?b1)) (trailing ?b1))"
    "get t' = Some 1" "get b' = None" "lookup h' 0 = None" "avail h' = avail ?h + nbytes ?b0"
    by blast
  have "MsrList_elems (fst (MsrList_move \<lparr>ptr = Some 1\<rparr>)) ?h
      = Inr (take (unat (hdr_count ?b1)) (trailing ?b1))"
    "get (snd (MsrList_move \<lparr>ptr = Some 1\<rparr>)) = None"
    using t by blast+
  with m show ?thesis by simp
qed

subsection \<open>C8: the index lists\<close>

text \<open>
  C8, on a list holding the indices 0x174 and 0x175.  The non-\<open>const\<close>
  \<open>begin()\<close> returns \<open>uint32_t*\<close>, and the store \<open>*(list.begin() + 1) = 0x176\<close>
  changes what iterating the list yields.
\<close>

theorem index_list_read_only_counterexample:
  "MsrIndexList_elems \<lparr>ptr = Some 0\<rparr>
      \<lparr>blocks = [Some \<lparr>nbytes = 12, hdr_count = 2, hdr_pad = 0, trailing = [0x174, 0x175]\<rparr>],
        avail = 0\<rparr> = Inr [0x174, 0x175]
   \<and> write_at (MsrIndexList_begin \<lparr>ptr = Some 0\<rparr>) 1 (0x176 :: 32 word)
      \<lparr>blocks = [Some \<lparr>nbytes = 12, hdr_count = 2, hdr_pad = 0, trailing = [0x174, 0x175]\<rparr>],
        avail = 0\<rparr>
     = Inr \<lparr>blocks = [Some \<lparr>nbytes = 12, hdr_count = 2, hdr_pad = 0, trailing = [0x174, 0x176]\<rparr>],
            avail = 0\<rparr>
   \<and> MsrIndexList_elems \<lparr>ptr = Some 0\<rparr>
      \<lparr>blocks = [Some \<lparr>nbytes = 12, hdr_count = 2, hdr_pad = 0, trailing = [0x174, 0x176]\<rparr>],
        avail = 0\<rparr> = Inr [0x174, 0x176]"
proof -
  let ?b = "\<lparr>nbytes = 12, hdr_count = 2, hdr_pad = 0, trailing = [0x174, 0x175 :: 32 word]\<rparr>"
  let ?b' = "\<lparr>nbytes = 12, hdr_count = 2, hdr_pad = 0, trailing = [0x174, 0x176 :: 32 word]\<rparr>"
  have "deref \<lparr>ptr = Some 0\<rparr> \<lparr>blocks = [Some ?b], avail = 0\<rparr> = Inr (0, ?b)"
    by (simp add: deref_def lookup_def)
  from MsrIndexList_elems_take [OF this]
  have 1: "MsrIndexList_elems \<lparr>ptr = Some 0\<rparr> \<lparr>blocks = [Some ?b], avail = 0\<rparr>
      = Inr [0x174, 0x175]" by simp
  have "deref \<lparr>ptr = Some 0\<rparr> \<lparr>blocks = [Some ?b'], avail = 0\<rparr> = Inr (0, ?b')"
    by (simp add: deref_def lookup_def)
  from MsrIndexList_elems_take [OF this]
  have 2: "MsrIndexList_elems \<lparr>ptr = Some 0\<rparr> \<lparr>blocks = [Some ?b'], avail = 0\<rparr>
      = Inr [0x174, 0x176]" by simp
  have 3: "write_at (MsrIndexList_begin \<lparr>ptr = Some 0\<rparr>) 1 (0x176 :: 32 word)
      \<lparr>blocks = [Some ?b], avail = 0\<rparr> = Inr \<lparr>blocks = [Some ?b'], avail = 0\<rparr>"
    by (simp add: write_at_def MsrIndexList_begin_def MsrIndexList_data_def fam_begin_def
        ptr_add_def ptr_store_def lookup_def)
  from 1 2 3 show ?thesis by simp
qed

text \<open>
  C8, amended.  For a live \<open>MsrIndexList\<close> (or \<open>MsrFeatureList\<close>) and a
  position \<open>i < size()\<close>: the pointers returned by \<open>cbegin()\<close>, by the \<open>const\<close>
  \<open>begin()\<close> and by the \<open>const\<close> \<open>data()\<close> are pointers to \<open>const\<close>, and
  a store through them is rejected; the pointers returned by the non-\<open>const\<close>
  \<open>begin()\<close> and \<open>data()\<close> can be stored through, and such a store replaces
  element \<open>i\<close> and nothing else: the other elements and \<open>size()\<close> are as
  before.
\<close>

theorem index_list_iteration_writable:
  assumes "deref l h = Inr (a, b)" "unat (hdr_count b) \<le> length (trailing b)"
    and "i < unat (hdr_count b)"
  shows "MsrIndexList_elems l h = Inr (take (unat (hdr_count b)) (trailing b))
       \<and> MsrIndexList_size l h = Inr (hdr_count b)
       \<and> write_at (MsrIndexList_cbegin l) i v h = Inl ConstViolation
       \<and> write_at (MsrIndexList_begin_const l) i v h = Inl ConstViolation
       \<and> write_at (MsrIndexList_data_const l) i v h = Inl ConstViolation
       \<and> (\<exists>h'. write_at (MsrIndexList_begin l) i v h = Inr h'
             \<and> MsrIndexList_elems l h' = Inr ((take (unat (hdr_count b)) (trailing b))[i := v])
             \<and> MsrIndexList_size l h' = Inr (hdr_count b))
       \<and> (\<exists>h'. write_at (MsrIndexList_data l) i v h = Inr h'
             \<and> MsrIndexList_elems l h' = Inr ((take (unat (hdr_count b)) (trailing b))[i := v])
             \<and> MsrIndexList_size l h' = Inr (hdr_count b))"
proof -
  from assms(1) have p: "ptr l = Some a" and lk: "lookup h a = Some b"
    by (auto simp: deref_def split: option.splits)
  have la: "a < length (blocks h)" using lk by (rule lookup_SomeD)
  have il: "i < length (trailing b)" using assms(2,3) by simp
  have 1: "MsrIndexList_elems l h = Inr (take (unat (hdr_count b)) (trailing b))"
    using assms(1,2) by (rule MsrIndexList_elems_take)
  have 2: "MsrIndexList_size l h = Inr (hdr_count b)"
    using assms(1) by (simp add: MsrIndexList_size_def fam_size_def)
  have 3: "write_at (MsrIndexList_cbegin l) i v h = Inl ConstViolation"
    "write_at (MsrIndexList_begin_const l) i v h = Inl ConstViolation"
    "write_at (MsrIndexList_data_const l) i v h = Inl ConstViolation"
    using p
    by (simp_all add: write_at_def MsrIndexList_cbegin_def MsrIndexList_begin_const_def
        MsrIndexList_data_const_def fam_begin_def ptr_add_def ptr_store_def)
  let ?b' = "b\<lparr>trailing := (trailing b)[i := v]\<rparr>"
  let ?h' = "h\<lparr>blocks := (blocks h)[a := Some ?b']\<rparr>"
  have w: "write_at (MsrIndexList_begin l) i v h = Inr ?h'"
    "write_at (MsrIndexList_data l) i v h = Inr ?h'"
    using p lk il
    by (simp_all add: write_at_def MsrIndexList_begin_def MsrIndexList_data_def fam_begin_def
        ptr_add_def ptr_store_def)
  have d': "deref l ?h' = Inr (a, ?b')" using p la by (simp add: deref_def lookup_def)
  have "MsrIndexList_elems l ?h' = Inr (take (unat (hdr_count ?b')) (trailing ?b'))"
    using d' assms(2) by (intro MsrIndexList_elems_take) simp_all
  then have 4: "MsrIndexList_elems l ?h' = Inr ((take (unat (hdr_count b)) (trailing b))[i := v])"
    by (simp add: take_update_swap)
  have 5: "MsrIndexList_size l ?h' = Inr (hdr_count b)"
    using d' by (simp add: MsrIndexList_size_def fam_size_def)
  show ?thesis using 1 2 3 w 4 5 by simp
qed

theorem index_list_iteration_writable_witness:
  "write_at (MsrIndexList_cbegin \<lparr>ptr = Some 0\<rparr>) 1 (0x176 :: 32 word)
      \<lparr>blocks = [Some \<lparr>nbytes = 12, hdr_count = 2, hdr_pad = 0, trailing = [0x174, 0x175]\<rparr>],
        avail = 0\<rparr> = Inl ConstViolation
   \<and> (\<exists>h'. write_at (MsrIndexList_begin \<lparr>ptr = Some 0\<rparr>) 1 0x176
      \<lparr>blocks = [Some \<lparr>nbytes = 12, hdr_count = 2, hdr_pad = 0, trailing = [0x174, 0x175]\<rparr>],
        avail = 0\<rparr> = Inr h'
      \<and> MsrIndexList_elems \<lparr>ptr = Some 0\<rparr> h' = Inr [0x174, 0x176]
      \<and> MsrIndexList_size \<lparr>ptr = Some 0\<rparr> h' = Inr 2)"
proof -
  let ?b = "\<lparr>nbytes = 12, hdr_count = 2, hdr_pad = 0, trailing = [0x174, 0x175 :: 32 word]\<rparr>"
  let ?h = "\<lparr>blocks = [Some ?b], avail = 0\<rparr>"
  have d: "deref \<lparr>ptr = Some 0\<rparr> ?h = Inr (0, ?b)" by (simp add: deref_def lookup_def)
  have le: "unat (hdr_count ?b) \<le> length (trailing ?b)" by simp
  have i: "1 < unat (hdr_count ?b)" by simp
  note t = index_list_iteration_writable [OF d le i, of "0x176"]
  have c: "write_at (MsrIndexList_cbegin \<lparr>ptr = Some 0\<rparr>) 1 (0x176 :: 32 word) ?h
      = Inl ConstViolation"
    using t by blast
  from t obtain h' where w:
    "write_at (MsrIndexList_begin \<lparr>ptr = Some 0\<rparr>) 1 0x176 ?h = Inr h'"
    "MsrIndexList_elems \<lparr>ptr = Some 0\<rparr> h'
       = Inr ((take (unat (hdr_count ?b)) (trailing ?b))[1 := 0x176])"
    "MsrIndexList_size \<lparr>ptr = Some 0\<rparr> h' = Inr (hdr_count ?b)"
    by blast
  from c w show ?thesis by simp
qed

subsection \<open>C9: deriving a machine node\<close>

text \<open>
  C9.  When \<open>system::vm()\<close> returns a machine node, the size query on the root in
  the state before the call returned a value, \<open>mmap_size()\<close> of the node is that
  value, and the node's descriptor is the result of the creation request issued
  next.  When the size query fails, \<open>system::vm()\<close> fails with its error; when the
  query succeeds and the creation request fails, it fails with that error; when
  both succeed, it returns a node.
\<close>

theorem machine_caches_mmap_size:
  "(system_vm k sys s = (Inr v, s') \<longrightarrow>
      (\<exists>sz s1. system_vcpu_mmap_size k sys s = (Inr sz, s1)
         \<and> unat (vm_mmap_size v) = unat sz
         \<and> system_create_vm k sys s1 = (Inr (m_fd v), s')))
   \<and> (system_vcpu_mmap_size k sys s = (Inl e, s1) \<longrightarrow> system_vm k sys s = (Inl e, s1))
   \<and> (system_vcpu_mmap_size k sys s = (Inr sz, s1) \<and> system_create_vm k sys s1 = (Inl e, s2)
        \<longrightarrow> system_vm k sys s = (Inl e, s2))
   \<and> (system_vcpu_mmap_size k sys s = (Inr sz, s1) \<and> system_create_vm k sys s1 = (Inr d, s2)
        \<longrightarrow> (\<exists>v. system_vm k sys s = (Inr v, s2) \<and> m_fd v = d
               \<and> unat (vm_mmap_size v) = unat sz))"
proof -
  have u: "unat (ucast (w :: 32 word) :: 64 word) = unat w" for w
  proof -
    have "unat w < 2 ^ 32" using unsigned_less [of w] by simp
    then have "unat w < 2 ^ 64" by simp
    then show ?thesis by (simp add: unsigned_ucast_eq take_bit_nat_eq_self)
  qed
  show ?thesis
    by (auto simp: system_vm_def vm_mmap_size_def u split: prod.splits sum.splits)
qed

theorem machine_caches_mmap_size_witness:
  "(\<exists>v. system_vm (\<lambda>d req (arg :: 64 word) (n :: nat).
         if req = KVM_GET_VCPU_MMAP_SIZE then ((0x3000, 0), n)
         else if req = KVM_CREATE_VM then ((5, 0), Suc n) else ((- 1, 22), n))
       \<lparr>system_fd = 3, system_closed = False\<rparr> 0 = (Inr v, 1)
      \<and> m_fd v = 5 \<and> unat (vm_mmap_size v) = 0x3000)
   \<and> system_vcpu_mmap_size (\<lambda>d req (arg :: 64 word) (n :: nat).
         if req = KVM_GET_VCPU_MMAP_SIZE then ((0x3000, 0), n)
         else if req = KVM_CREATE_VM then ((5, 0), Suc n) else ((- 1, 22), n))
       \<lparr>system_fd = 3, system_closed = False\<rparr> 0 = (Inr 0x3000, 0)
   \<and> system_vm (\<lambda>d req (arg :: 64 word) (n :: nat).
         if req = KVM_GET_VCPU_MMAP_SIZE then ((0x3000, 0), n) else ((- 1, 24), Suc n))
       \<lparr>system_fd = 3, system_closed = False\<rparr> 0 = (Inl (SystemError 24), 1)
   \<and> system_vm (\<lambda>d req (arg :: 64 word) (n :: nat). ((- 1, 9), Suc n))
       \<lparr>system_fd = 3, system_closed = False\<rparr> 0 = (Inl (SystemError 9), 1)"
proof -
  let ?sys = "\<lparr>system_fd = 3, system_closed = False\<rparr>"
  let ?k = "\<lambda>d req (arg :: 64 word) (n :: nat).
         if req = KVM_GET_VCPU_MMAP_SIZE then ((0x3000 :: 32 word, 0 :: int), n)
         else if req = KVM_CREATE_VM then ((5, 0), Suc n) else ((- 1, 22), n)"
  let ?k2 = "\<lambda>d req (arg :: 64 word) (n :: nat).
         if req = KVM_GET_VCPU_MMAP_SIZE then ((0x3000 :: 32 word, 0 :: int), n)
         else ((- 1, 24), Suc n)"
  let ?k3 = "\<lambda>d req (arg :: 64 word) (n :: nat). ((- 1 :: 32 word, 9 :: int), Suc n)"
  have q: "system_vcpu_mmap_size ?k ?sys 0 = (Inr 0x3000, 0)"
    by (simp add: system_vcpu_mmap_size_def ioctl_def)
  have c: "system_create_vm ?k ?sys 0 = (Inr 5, 1)"
    by (simp add: system_create_vm_def ioctl_def KVM_CREATE_VM_def KVM_GET_VCPU_MMAP_SIZE_def)
  have q2: "system_vcpu_mmap_size ?k2 ?sys 0 = (Inr 0x3000, 0)"
    by (simp add: system_vcpu_mmap_size_def ioctl_def)
  have c2: "system_create_vm ?k2 ?sys 0 = (Inl (SystemError 24), 1)"
    by (simp add: system_create_vm_def ioctl_def KVM_CREATE_VM_def KVM_GET_VCPU_MMAP_SIZE_def)
  have q3: "system_vcpu_mmap_size ?k3 ?sys 0 = (Inl (SystemError 9), 1)"
    by (simp add: system_vcpu_mmap_size_def ioctl_def)
  have 1: "\<exists>v. system_vm ?k ?sys 0 = (Inr v, 1) \<and> m_fd v = 5 \<and> unat (vm_mmap_size v) = 0x3000"
    using machine_caches_mmap_size [where k = ?k and sys = ?sys and s = 0 and sz = "0x3000"
        and ?s1.0 = 0 and ?s2.0 = 1 and d = 5] q c by simp
  have 2: "system_vm ?k2 ?sys 0 = (Inl (SystemError 24), 1)"
    using machine_caches_mmap_size [where k = ?k2 and sys = ?sys and s = 0 and sz = "0x3000"
        and ?s1.0 = 0 and ?s2.0 = 1 and e = "SystemError 24"] q2 c2
    by simp
  have 3: "system_vm ?k3 ?sys 0 = (Inl (SystemError 9), 1)"
    using machine_caches_mmap_size [where k = ?k3 and sys = ?sys and s = 0
        and ?s1.0 = 1 and e = "SystemError 9"] q3 by simp
  from 1 q 2 3 show ?thesis by simp
qed

subsection \<open>C10: the limit queries of the machine node\<close>

text \<open>
  C10.  When the capability check for \<open>KVM_CAP_NR_VCPUS\<close> returns 0,
  \<open>num_vcpus()\<close> returns 4; when the check for \<open>KVM_CAP_MAX_VCPUS\<close> returns 0,
  \<open>max_vcpus()\<close> is what \<open>num_vcpus()\<close> returns when called next; when the check
  for \<open>KVM_CAP_NR_MEMSLOTS\<close> returns 0, \<open>num_memslots()\<close> returns 32.  When a
  check returns a positive value, the query returns that value unchanged, and when
  a check fails, the query fails with the same error.
\<close>

theorem limit_queries_fall_back:
  "(vm_check_extension k v KVM_CAP_NR_VCPUS s = (Inr r1, s1) \<longrightarrow>
      (r1 = 0 \<longrightarrow> vm_num_vcpus k v s = (Inr 4, s1))
      \<and> (0 < r1 \<longrightarrow> vm_num_vcpus k v s = (Inr r1, s1)))
   \<and> (vm_check_extension k v KVM_CAP_MAX_VCPUS s = (Inr r2, s2) \<longrightarrow>
      (r2 = 0 \<longrightarrow> vm_max_vcpus k v s = vm_num_vcpus k v s2)
      \<and> (0 < r2 \<longrightarrow> vm_max_vcpus k v s = (Inr r2, s2)))
   \<and> (vm_check_extension k v KVM_CAP_NR_MEMSLOTS s = (Inr r3, s3) \<longrightarrow>
      (r3 = 0 \<longrightarrow> vm_num_memslots k v s = (Inr 32, s3))
      \<and> (0 < r3 \<longrightarrow> vm_num_memslots k v s = (Inr r3, s3)))
   \<and> (vm_check_extension k v KVM_CAP_NR_VCPUS s = (Inl e1, s4) \<longrightarrow>
        vm_num_vcpus k v s = (Inl e1, s4))
   \<and> (vm_check_extension k v KVM_CAP_MAX_VCPUS s = (Inl e2, s5) \<longrightarrow>
        vm_max_vcpus k v s = (Inl e2, s5))
   \<and> (vm_check_extension k v KVM_CAP_NR_MEMSLOTS s = (Inl e3, s6) \<longrightarrow>
        vm_num_memslots k v s = (Inl e3, s6))"
  by (simp add: vm_num_vcpus_def vm_max_vcpus_def vm_num_memslots_def)

theorem limit_queries_fall_back_witness:
  "vm_num_vcpus (\<lambda>d req (arg :: 64 word) (n :: nat). ((0, 0), Suc n))
      \<lparr>m_fd = 5, m_mmap_size = 0x3000\<rparr> 0 = (Inr 4, 1)
   \<and> vm_max_vcpus (\<lambda>d req (arg :: 64 word) (n :: nat). ((0, 0), Suc n))
      \<lparr>m_fd = 5, m_mmap_size = 0x3000\<rparr> 0 = (Inr 4, 2)
   \<and> vm_num_memslots (\<lambda>d req (arg :: 64 word) (n :: nat). ((0, 0), Suc n))
      \<lparr>m_fd = 5, m_mmap_size = 0x3000\<rparr> 0 = (Inr 32, 1)
   \<and> vm_num_vcpus (\<lambda>d req (arg :: 64 word) (n :: nat).
        if arg = ucast KVM_CAP_NR_VCPUS then ((8, 0), Suc n)
        else if arg = ucast KVM_CAP_MAX_VCPUS then ((288, 0), Suc n) else ((509, 0), Suc n))
      \<lparr>m_fd = 5, m_mmap_size = 0x3000\<rparr> 0 = (Inr 8, 1)
   \<and> vm_max_vcpus (\<lambda>d req (arg :: 64 word) (n :: nat).
        if arg = ucast KVM_CAP_NR_VCPUS then ((8, 0), Suc n)
        else if arg = ucast KVM_CAP_MAX_VCPUS then ((288, 0), Suc n) else ((509, 0), Suc n))
      \<lparr>m_fd = 5, m_mmap_size = 0x3000\<rparr> 0 = (Inr 288, 1)
   \<and> vm_num_memslots (\<lambda>d req (arg :: 64 word) (n :: nat).
        if arg = ucast KVM_CAP_NR_VCPUS then ((8, 0), Suc n)
        else if arg = ucast KVM_CAP_MAX_VCPUS then ((288, 0), Suc n) else ((509, 0), Suc n))
      \<lparr>m_fd = 5, m_mmap_size = 0x3000\<rparr> 0 = (Inr 509, 1)
   \<and> vm_max_vcpus (\<lambda>d req (arg :: 64 word) (n :: nat). ((- 1, 9), Suc n))
      \<lparr>m_fd = 5, m_mmap_size = 0x3000\<rparr> 0 = (Inl (SystemError 9), 1)"
proof -
  let ?v = "\<lparr>m_fd = 5, m_mmap_size = 0x3000\<rparr>"
  let ?k0 = "\<lambda>d req (arg :: 64 word) (n :: nat). ((0 :: 32 word, 0 :: int), Suc n)"
  let ?k1 = "\<lambda>d req (arg :: 64 word) (n :: nat).
        if arg = ucast KVM_CAP_NR_VCPUS then ((8 :: 32 word, 0 :: int), Suc n)
        else if arg = ucast KVM_CAP_MAX_VCPUS then ((288, 0), Suc n) else ((509, 0), Suc n)"
  let ?k2 = "\<lambda>d req (arg :: 64 word) (n :: nat). ((- 1 :: 32 word, 9 :: int), Suc n)"
  have c0: "vm_check_extension ?k0 ?v cap n = (Inr 0, Suc n)" for cap n
    by (simp add: vm_check_extension_def KvmFd_ioctl_def ioctl_def)
  have c1: "vm_check_extension ?k1 ?v KVM_CAP_NR_VCPUS 0 = (Inr 8, 1)"
    "vm_check_extension ?k1 ?v KVM_CAP_MAX_VCPUS 0 = (Inr 288, 1)"
    "vm_check_extension ?k1 ?v KVM_CAP_NR_MEMSLOTS 0 = (Inr 509, 1)"
    by (simp_all add: vm_check_extension_def KvmFd_ioctl_def ioctl_def KVM_CAP_NR_VCPUS_def
        KVM_CAP_MAX_VCPUS_def KVM_CAP_NR_MEMSLOTS_def)
  have c2: "vm_check_extension ?k2 ?v cap 0 = (Inl (SystemError 9), 1)" for cap
    by (simp add: vm_check_extension_def KvmFd_ioctl_def ioctl_def)
  note a = limit_queries_fall_back [where k = ?k0 and v = ?v and s = 0 and ?r1.0 = 0
      and ?s1.0 = 1 and ?r2.0 = 0 and ?s2.0 = 1 and ?r3.0 = 0 and ?s3.0 = 1]
  note a' = limit_queries_fall_back [where k = ?k0 and v = ?v and s = 1 and ?r1.0 = 0
      and ?s1.0 = 2]
  note b = limit_queries_fall_back [where k = ?k1 and v = ?v and s = 0 and ?r1.0 = 8
      and ?s1.0 = 1 and ?r2.0 = 288 and ?s2.0 = 1 and ?r3.0 = 509 and ?s3.0 = 1]
  note c = limit_queries_fall_back [where k = ?k2 and v = ?v and s = 0
      and ?e2.0 = "SystemError 9" and ?s5.0 = 1]
  have 1: "vm_num_vcpus ?k0 ?v 0 = (Inr 4, 1)" using a c0 by simp
  have nv: "vm_num_vcpus ?k0 ?v 1 = (Inr 4, 2)" using a' c0 by simp
  have 2: "vm_max_vcpus ?k0 ?v 0 = (Inr 4, 2)" using a c0 nv by simp
  have 3: "vm_num_memslots ?k0 ?v 0 = (Inr 32, 1)" using a c0 by simp
  have 4: "vm_num_vcpus ?k1 ?v 0 = (Inr 8, 1)" "vm_max_vcpus ?k1 ?v 0 = (Inr 288, 1)"
    "vm_num_memslots ?k1 ?v 0 = (Inr 509, 1)" using b c1 by simp_all
  have 5: "vm_max_vcpus ?k2 ?v 0 = (Inl (SystemError 9), 1)" using c c2 by simp
  from 1 2 3 4 5 show ?thesis by simp
qed

end
